theory Spec2Isabelle
  imports Main "HOL-Library.Word"
begin

section \<open>The audio system of xenia/apu/audio\_system.cc\<close>

text \<open>
  The development embeds \<^verbatim>\<open>xe::apu::AudioSystem\<close>: the fixed table of client slots with
  its queue of unused indices, one Win32 counting semaphore per slot, the worker thread
  that pumps guest callbacks, and the four public operations. Everything the class reaches
  outside this file (the driver factory, the guest heap, the processor that runs a
  callback) is either a parameter of the operation that calls it or a log in the state.
\<close>

subsection \<open>Constants that the header declares\<close>

text \<open>
  \<^verbatim>\<open>kMaximumClientCount\<close>, \<^verbatim>\<open>kMaximumQueuedFrames\<close>, \<^verbatim>\<open>X_STATUS_SUCCESS\<close> and the macro
  \<^verbatim>\<open>XFAILED\<close> are declared in headers, not in the translation unit; every operation takes
  them as a parameter.
\<close>

type_synonym X_STATUS = "32 word"

record platform =
  kMaximumClientCount :: nat
  kMaximumQueuedFrames :: nat
  X_STATUS_SUCCESS :: X_STATUS
  XFAILED :: "X_STATUS \<Rightarrow> bool"

subsection \<open>Win32 wait primitives\<close>

text \<open>
  A semaphore object has a current count and the maximum given to \<^verbatim>\<open>CreateSemaphore\<close>.
  \<^verbatim>\<open>ReleaseSemaphore\<close> adds to the count unless that would pass the maximum, in which case
  it changes nothing and returns FALSE. \<^verbatim>\<open>WaitForSingleObject\<close> is only ever called with
  a timeout of zero here: it takes one unit if there is one and reports
  \<^verbatim>\<open>WAIT_TIMEOUT\<close> at once otherwise.
\<close>

record semaphore =
  sem_count :: nat
  sem_max :: nat

definition WAIT_OBJECT_0 :: nat where
  "WAIT_OBJECT_0 = 0"

definition WAIT_TIMEOUT :: nat where
  "WAIT_TIMEOUT = 258"

definition WAIT_FAILED :: nat where
  "WAIT_FAILED = 4294967295"

definition CreateSemaphore :: "nat \<Rightarrow> nat \<Rightarrow> semaphore" where
  "CreateSemaphore initial_count maximum_count =
     \<lparr>sem_count = initial_count, sem_max = maximum_count\<rparr>"

definition ReleaseSemaphore :: "semaphore \<Rightarrow> nat \<Rightarrow> bool \<times> semaphore" where
  "ReleaseSemaphore h release_count =
     (if 0 < release_count \<and> sem_count h + release_count \<le> sem_max h
      then (True, h\<lparr>sem_count := sem_count h + release_count\<rparr>)
      else (False, h))"

definition WaitForSingleObject :: "semaphore \<Rightarrow> nat \<times> semaphore" where
  "WaitForSingleObject h =
     (if 0 < sem_count h then (WAIT_OBJECT_0, h\<lparr>sem_count := sem_count h - 1\<rparr>)
      else (WAIT_TIMEOUT, h))"

subsection \<open>The state of an AudioSystem\<close>

text \<open>
  A client record as \<^verbatim>\<open>RegisterClient\<close> fills it:
  \<^verbatim>\<open>{driver, callback, callback_arg, ptr}\<close>, the last field being the one the worker reads
  as \<^verbatim>\<open>wrapped_callback_arg\<close>. A driver pointer is a number, 0 for NULL.
\<close>

record client =
  driver :: nat
  callback :: "32 word"
  callback_arg :: "32 word"
  wrapped_callback_arg :: "32 word"

definition zero_client :: client where
  "zero_client = \<lparr>driver = 0, callback = 0, callback_arg = 0, wrapped_callback_arg = 0\<rparr>"

text \<open>
  The members of the class, then what its calls leave in the world outside it: the blocks
  handed out by \<^verbatim>\<open>SystemHeapAlloc\<close> (nothing in the translation unit gives one back), the
  32-bit value the host sees at a guest address, and the calls made to
  \<^verbatim>\<open>Processor::Execute\<close>, \<^verbatim>\<open>AudioDriver::SubmitFrame\<close> and \<^verbatim>\<open>DestroyDriver\<close>, in order.
\<close>

record audio_system =
  clients :: "client list"
  unused_clients :: "nat list"
  client_semaphores :: "semaphore list"
  shutdown_event :: bool
  worker_running :: bool
  heap_blocks :: "32 word list"
  guest_memory :: "32 word \<Rightarrow> 32 word"
  executed :: "(32 word \<times> 64 word list) list"
  submitted :: "(nat \<times> 32 word) list"
  destroyed :: "nat list"

text \<open>An \<^verbatim>\<open>assert_true\<close> or \<^verbatim>\<open>assert_not_null\<close> that does not hold stops the call.\<close>

datatype assertion =
    Assert_unused_clients_size
  | Assert_ReleaseSemaphore_ret
  | Assert_driver_not_null
  | Assert_index_in_range
  | Assert_client_driver
  | Assert_wait_result_timeout

text \<open>
  The constructor: every record zeroed, the indices 0, 1, ... pushed on the queue in that
  order, one semaphore per slot created with count 0 and maximum
  \<^verbatim>\<open>kMaximumQueuedFrames\<close>, the manual-reset shutdown event created unsignalled.
\<close>

definition AudioSystem :: "platform \<Rightarrow> audio_system" where
  "AudioSystem P =
     \<lparr>clients = replicate (kMaximumClientCount P) zero_client,
      unused_clients = [0 ..< kMaximumClientCount P],
      client_semaphores =
        replicate (kMaximumClientCount P) (CreateSemaphore 0 (kMaximumQueuedFrames P)),
      shutdown_event = False,
      worker_running = False,
      heap_blocks = [],
      guest_memory = (\<lambda>_. 0),
      executed = [],
      submitted = [],
      destroyed = []\<rparr>"

subsection \<open>Registration, submission, unregistration\<close>

text \<open>
  Modelled from the spec: \<^verbatim>\<open>xe::store_and_swap<uint32_t>\<close> lives in xenia/base/memory.h,
  which is not part of the translation unit; the spec says the block holds a byte-swapped
  copy of the argument. The four bytes of the value are written in the opposite order.
\<close>

definition byte_swap :: "32 word \<Rightarrow> 32 word" where
  "byte_swap v =
     or (or (push_bit 24 (and v 255)) (push_bit 16 (and (drop_bit 8 v) 255)))
        (or (push_bit 8 (and (drop_bit 16 v) 255)) (and (drop_bit 24 v) 255))"

definition store_and_swap :: "32 word \<Rightarrow> 32 word \<Rightarrow> audio_system \<Rightarrow> audio_system" where
  "store_and_swap ptr v s = s\<lparr>guest_memory := (guest_memory s)(ptr := byte_swap v)\<rparr>"

text \<open>
  \<^verbatim>\<open>RegisterClient\<close>. \<^verbatim>\<open>CreateDriver\<close> is pure virtual and \<^verbatim>\<open>SystemHeapAlloc\<close> belongs to
  the memory object: both are arguments. The result is the status, the value written
  through \<^verbatim>\<open>out_index\<close> if any, and the state.
\<close>

definition RegisterClient ::
  "platform \<Rightarrow> (nat \<Rightarrow> semaphore \<Rightarrow> X_STATUS \<times> nat) \<Rightarrow> (nat \<Rightarrow> 32 word) \<Rightarrow>
   32 word \<Rightarrow> 32 word \<Rightarrow> audio_system \<Rightarrow>
   assertion + (X_STATUS \<times> nat option \<times> audio_system)" where
  "RegisterClient P CreateDriver SystemHeapAlloc cb cb_arg s =
     (if length (unused_clients s) = 0 then Inl Assert_unused_clients_size
      else
        let index = hd (unused_clients s);
            client_semaphore = client_semaphores s ! index;
            (ret, released) = ReleaseSemaphore client_semaphore (kMaximumQueuedFrames P);
            s1 = s\<lparr>client_semaphores := (client_semaphores s)[index := released]\<rparr>
        in if \<not> ret then Inl Assert_ReleaseSemaphore_ret
           else
             let (result, drv) = CreateDriver index released
             in if XFAILED P result then Inr (result, None, s1)
                else if drv = 0 then Inl Assert_driver_not_null
                else
                  let s2 = s1\<lparr>unused_clients := tl (unused_clients s1)\<rparr>;
                      ptr = SystemHeapAlloc 4;
                      s3 = s2\<lparr>heap_blocks := heap_blocks s2 @ [ptr]\<rparr>;
                      s4 = store_and_swap ptr cb_arg s3;
                      s5 = s4\<lparr>clients := (clients s4)
                             [index := \<lparr>driver = drv, callback = cb, callback_arg = cb_arg,
                                        wrapped_callback_arg = ptr\<rparr>]\<rparr>
                  in Inr (X_STATUS_SUCCESS P, Some index, s5))"



definition SubmitFrame :: "platform \<Rightarrow> nat \<Rightarrow> 32 word \<Rightarrow> audio_system \<Rightarrow> assertion + audio_system" where
  "SubmitFrame P index samples_ptr s =
     (if \<not> index < kMaximumClientCount P then Inl Assert_index_in_range
      else if driver (clients s ! index) = 0 then Inl Assert_client_driver
      else Inr (s\<lparr>submitted := submitted s @ [(driver (clients s ! index), samples_ptr)]\<rparr>))"

text \<open>
  The loop that empties a semaphore: \<^verbatim>\<open>do { wait_result = WaitForSingleObject(h, 0); }
  while (wait_result == WAIT_OBJECT_0)\<close>. Besides the last wait result and the semaphore it
  returns how many times it called \<^verbatim>\<open>WaitForSingleObject\<close>.
\<close>

function drain :: "semaphore \<Rightarrow> nat \<Rightarrow> nat \<times> semaphore \<times> nat" where
  "drain h waits =
     (let (wait_result, h1) = WaitForSingleObject h
      in if wait_result = WAIT_OBJECT_0 then drain h1 (waits + 1)
         else (wait_result, h1, waits + 1))"
  by pat_completeness auto
termination
  by (relation "measure (\<lambda>(h, waits). sem_count h)")
     (auto simp: WaitForSingleObject_def WAIT_OBJECT_0_def WAIT_TIMEOUT_def split: if_splits)

declare drain.simps [simp del]

definition UnregisterClient :: "platform \<Rightarrow> nat \<Rightarrow> audio_system \<Rightarrow> assertion + audio_system" where
  "UnregisterClient P index s =
     (if \<not> index < kMaximumClientCount P then Inl Assert_index_in_range
      else
        let s1 = s\<lparr>destroyed := destroyed s @ [driver (clients s ! index)]\<rparr>;
            s2 = s1\<lparr>clients := (clients s1)[index := zero_client]\<rparr>;
            s3 = s2\<lparr>unused_clients := unused_clients s2 @ [index]\<rparr>;
            client_semaphore = client_semaphores s3 ! index;
            (wait_result, drained, waits) = drain client_semaphore 0;
            s4 = s3\<lparr>client_semaphores := (client_semaphores s3)[index := drained]\<rparr>
        in if wait_result \<noteq> WAIT_TIMEOUT then Inl Assert_wait_result_timeout
           else Inr s4)"

text \<open>
  \<^verbatim>\<open>SubmitFrame\<close> and \<^verbatim>\<open>UnregisterClient\<close> once more, returning the state the call has
  reached together with the assertion that stopped it, if one did: what a call has written
  before an assertion fails stays written.
\<close>

definition SubmitFrame_effect ::
  "platform \<Rightarrow> nat \<Rightarrow> 32 word \<Rightarrow> audio_system \<Rightarrow> assertion option \<times> audio_system" where
  "SubmitFrame_effect P index samples_ptr s =
     (if \<not> index < kMaximumClientCount P then (Some Assert_index_in_range, s)
      else if driver (clients s ! index) = 0 then (Some Assert_client_driver, s)
      else (None, s\<lparr>submitted := submitted s @ [(driver (clients s ! index), samples_ptr)]\<rparr>))"

definition UnregisterClient_effect ::
  "platform \<Rightarrow> nat \<Rightarrow> audio_system \<Rightarrow> assertion option \<times> audio_system" where
  "UnregisterClient_effect P index s =
     (if \<not> index < kMaximumClientCount P then (Some Assert_index_in_range, s)
      else
        let s1 = s\<lparr>destroyed := destroyed s @ [driver (clients s ! index)]\<rparr>;
            s2 = s1\<lparr>clients := (clients s1)[index := zero_client]\<rparr>;
            s3 = s2\<lparr>unused_clients := unused_clients s2 @ [index]\<rparr>;
            client_semaphore = client_semaphores s3 ! index;
            (wait_result, drained, waits) = drain client_semaphore 0;
            s4 = s3\<lparr>client_semaphores := (client_semaphores s3)[index := drained]\<rparr>
        in if wait_result \<noteq> WAIT_TIMEOUT then (Some Assert_wait_result_timeout, s4)
           else (None, s4))"

subsection \<open>The worker thread\<close>

text \<open>
  \<^verbatim>\<open>WaitForMultipleObjectsEx\<close> on \<^verbatim>\<open>wait_handles_\<close> (the semaphores in slot order, then
  the shutdown event), waiting for any one object, without a timeout: the lowest signalled
  handle decides. A semaphore gives up one unit; the manual-reset event stays set. With
  nothing signalled the call does not return, which is the value \<open>None\<close>. The call takes
  at most 64 handles, so a system that can wait on all its slots and the event has fewer
  than 64 slots; the facts about the worker assume as much.
\<close>

definition WaitForMultipleObjectsEx :: "platform \<Rightarrow> audio_system \<Rightarrow> (nat \<times> audio_system) option" where
  "WaitForMultipleObjectsEx P s =
     (case find (\<lambda>i. 0 < sem_count (client_semaphores s ! i)) [0 ..< kMaximumClientCount P] of
        Some i \<Rightarrow>
          Some (WAIT_OBJECT_0 + i,
                s\<lparr>client_semaphores :=
                    (client_semaphores s)[i := snd (WaitForSingleObject (client_semaphores s ! i))]\<rparr>)
      | None \<Rightarrow>
          if shutdown_event s then Some (WAIT_OBJECT_0 + kMaximumClientCount P, s) else None)"

text \<open>
  The body of the do-while up to the call: the callback and the wrapped argument are read
  under the lock, and a non-zero callback is run by the processor with that one argument.
\<close>

definition pump_client :: "nat \<Rightarrow> audio_system \<Rightarrow> audio_system" where
  "pump_client index s =
     (let client_callback = callback (clients s ! index);
          client_callback_arg = wrapped_callback_arg (clients s ! index)
      in if client_callback \<noteq> 0
         then s\<lparr>executed := executed s @ [(client_callback, [ucast client_callback_arg])]\<rparr>
         else s)"

text \<open>
  The do-while itself: pump the slot, count it, step to the next index, and go on while that
  index is in range and its semaphore gives a unit to a zero-timeout wait.
\<close>

function sweep :: "platform \<Rightarrow> nat \<Rightarrow> nat \<Rightarrow> audio_system \<Rightarrow> nat \<times> audio_system" where
  "sweep P index pumped s =
     (let s1 = pump_client index s;
          pumped1 = pumped + 1;
          index1 = index + 1
      in if index1 < kMaximumClientCount P
         then
           (let (wait_result, h) = WaitForSingleObject (client_semaphores s1 ! index1)
            in if wait_result = WAIT_OBJECT_0
               then sweep P index1 pumped1
                      (s1\<lparr>client_semaphores := (client_semaphores s1)[index1 := h]\<rparr>)
               else (pumped1, s1))
         else (pumped1, s1))"
  by pat_completeness auto
termination
  by (relation "measure (\<lambda>(P, index, pumped, s). kMaximumClientCount P - index)") auto

declare sweep.simps [simp del]

text \<open>
  One pass through the body of \<^verbatim>\<open>while (worker_running_)\<close>, from the blocking wait to the
  end of the body. \<^verbatim>\<open>Sleep(500)\<close>, taken when nothing was pumped, changes no member.
\<close>

datatype loop_exit = Continue | Break

definition WorkerLoopBody :: "platform \<Rightarrow> audio_system \<Rightarrow> (loop_exit \<times> audio_system) option" where
  "WorkerLoopBody P s =
     (case WaitForMultipleObjectsEx P s of
        None \<Rightarrow> None
      | Some (result, s1) \<Rightarrow>
          if result = WAIT_FAILED \<or> result = WAIT_OBJECT_0 + kMaximumClientCount P
          then Some (Continue, s1)
          else
            let (pumped, s2) =
                  (if WAIT_OBJECT_0 \<le> result \<and>
                      result \<le> WAIT_OBJECT_0 + (kMaximumClientCount P - 1)
                   then sweep P (result - WAIT_OBJECT_0) 0 s1
                   else (0, s1))
            in if \<not> worker_running s2 then Some (Break, s2)
               else Some (Continue, s2))"

text \<open>
  The same thread one shared access at a time, for what another thread can do in between.
  The control points are the test of \<^verbatim>\<open>while (worker_running_)\<close>, the blocking wait, the
  start of the do-while body for an index, the do-while condition for the next index, the
  test of \<^verbatim>\<open>worker_running_\<close> after the sweep, and the end of \<^verbatim>\<open>WorkerThreadMain\<close>.
\<close>

datatype worker_pc =
    LoopHead
  | Waiting
  | Pumping nat nat
  | SweepCond nat nat
  | AfterSweep nat
  | Exited

fun worker_step :: "platform \<Rightarrow> worker_pc \<times> audio_system \<Rightarrow> (worker_pc \<times> audio_system) option" where
  "worker_step P (LoopHead, s) =
     (if worker_running s then Some (Waiting, s)
      else Some (Exited, s\<lparr>worker_running := False\<rparr>))"
| "worker_step P (Waiting, s) =
     (case WaitForMultipleObjectsEx P s of
        None \<Rightarrow> None
      | Some (result, s1) \<Rightarrow>
          if result = WAIT_FAILED \<or> result = WAIT_OBJECT_0 + kMaximumClientCount P
          then Some (LoopHead, s1)
          else if WAIT_OBJECT_0 \<le> result \<and>
                  result \<le> WAIT_OBJECT_0 + (kMaximumClientCount P - 1)
          then Some (Pumping (result - WAIT_OBJECT_0) 0, s1)
          else Some (AfterSweep 0, s1))"
| "worker_step P (Pumping index pumped, s) =
     Some (SweepCond (index + 1) (pumped + 1), pump_client index s)"
| "worker_step P (SweepCond index pumped, s) =
     (if index < kMaximumClientCount P
      then
        (let (wait_result, h) = WaitForSingleObject (client_semaphores s ! index)
         in if wait_result = WAIT_OBJECT_0
            then Some (Pumping index pumped,
                       s\<lparr>client_semaphores := (client_semaphores s)[index := h]\<rparr>)
            else Some (AfterSweep pumped, s))
      else Some (AfterSweep pumped, s))"
| "worker_step P (AfterSweep pumped, s) =
     (if \<not> worker_running s then Some (Exited, s\<lparr>worker_running := False\<rparr>)
      else Some (LoopHead, s))"
| "worker_step P (Exited, s) = None"

text \<open>At most \<open>k\<close> steps of the worker, stopping where it cannot move.\<close>

fun worker_run :: "nat \<Rightarrow> platform \<Rightarrow> worker_pc \<times> audio_system \<Rightarrow> worker_pc \<times> audio_system" where
  "worker_run 0 P c = c"
| "worker_run (Suc k) P c =
     (case worker_step P c of None \<Rightarrow> c | Some c1 \<Rightarrow> worker_run k P c1)"


subsection \<open>Setup and Shutdown\<close>

text \<open>
  The thread object and the state it shares with its creator: \<open>None\<close> while
  \<^verbatim>\<open>worker_thread_\<close> holds no thread, otherwise where the thread stands.
\<close>

type_synonym config = "worker_pc option \<times> audio_system"

definition Setup :: "platform \<Rightarrow> config \<Rightarrow> X_STATUS \<times> config" where
  "Setup P c = (X_STATUS_SUCCESS P, (Some LoopHead, (snd c)\<lparr>worker_running := True\<rparr>))"

text \<open>The first two statements of \<^verbatim>\<open>Shutdown\<close>, one shared write each.\<close>

definition Shutdown_clear_running :: "audio_system \<Rightarrow> audio_system" where
  "Shutdown_clear_running s = s\<lparr>worker_running := False\<rparr>"

definition Shutdown_SetEvent :: "audio_system \<Rightarrow> audio_system" where
  "Shutdown_SetEvent s = s\<lparr>shutdown_event := True\<rparr>"

text \<open>
  Modelled from the spec: \<^verbatim>\<open>XHostThread::Wait\<close> is defined in xenia/kernel/objects, outside
  the translation unit; the spec has \<^verbatim>\<open>shutdown\<close> block its caller until the worker task
  has left its loop. The wait returns the configuration when the thread has exited and
  does not return (\<open>None\<close>) before.
\<close>

definition Shutdown_Wait :: "config \<Rightarrow> config option" where
  "Shutdown_Wait c = (if fst c = Some Exited then Some c else None)"

definition Shutdown_reset :: "config \<Rightarrow> config" where
  "Shutdown_reset c = (None, snd c)"

subsection \<open>Sequences of calls and interleavings\<close>

text \<open>
  A caller's sequence of registrations and unregistrations, each registration with the
  driver factory and the allocator it meets. The run stops at the first assertion that
  fails and otherwise returns the indices handed out, in order, and the final state.
\<close>

datatype call =
    Register "nat \<Rightarrow> semaphore \<Rightarrow> X_STATUS \<times> nat" "nat \<Rightarrow> 32 word" "32 word" "32 word"
  | Unregister nat

fun run_calls ::
  "platform \<Rightarrow> audio_system \<Rightarrow> call list \<Rightarrow> assertion + (nat list \<times> audio_system)" where
  "run_calls P s [] = Inr ([], s)"
| "run_calls P s (Register cd ha cb arg # cs) =
     (case RegisterClient P cd ha cb arg s of
        Inl a \<Rightarrow> Inl a
      | Inr (result, out_index, s1) \<Rightarrow>
          (case run_calls P s1 cs of
             Inl a \<Rightarrow> Inl a
           | Inr (regs, s2) \<Rightarrow>
               Inr ((case out_index of None \<Rightarrow> [] | Some i \<Rightarrow> [i]) @ regs, s2)))"
| "run_calls P s (Unregister index # cs) =
     (case UnregisterClient P index s of
        Inl a \<Rightarrow> Inl a
      | Inr s1 \<Rightarrow> run_calls P s1 cs)"

text \<open>
  The preconditions the callers owe: a registration finds the queue of unused indices
  non-empty, an unregistration names an index in range whose slot has a driver.
\<close>

fun preconditions_hold :: "platform \<Rightarrow> audio_system \<Rightarrow> call list \<Rightarrow> bool" where
  "preconditions_hold P s [] = True"
| "preconditions_hold P s (Register cd ha cb arg # cs) =
     (unused_clients s \<noteq> [] \<and>
      (case RegisterClient P cd ha cb arg s of
         Inl a \<Rightarrow> True
       | Inr (result, out_index, s1) \<Rightarrow> preconditions_hold P s1 cs))"
| "preconditions_hold P s (Unregister index # cs) =
     (index < kMaximumClientCount P \<and> driver (clients s ! index) \<noteq> 0 \<and>
      (case UnregisterClient P index s of
         Inl a \<Rightarrow> True
       | Inr s1 \<Rightarrow> preconditions_hold P s1 cs))"

fun unregistered :: "call list \<Rightarrow> nat list" where
  "unregistered [] = []"
| "unregistered (Register cd ha cb arg # cs) = unregistered cs"
| "unregistered (Unregister index # cs) = index # unregistered cs"

text \<open>
  An interleaving of the threads: calls of the public operations, single steps of the
  worker, and the statements of \<^verbatim>\<open>Shutdown\<close> one at a time. A schedule that asks a thread
  to move where it cannot is not an execution.
\<close>

datatype event =
    Call_Setup
  | Call_RegisterClient "nat \<Rightarrow> semaphore \<Rightarrow> X_STATUS \<times> nat" "nat \<Rightarrow> 32 word" "32 word" "32 word"
  | Call_SubmitFrame nat "32 word"
  | Call_UnregisterClient nat
  | Worker
  | Shutdown_1
  | Shutdown_2
  | Shutdown_3
  | Shutdown_4

datatype stop = Failed assertion | Not_enabled

fun do_event :: "platform \<Rightarrow> event \<Rightarrow> config \<Rightarrow> stop + config" where
  "do_event P Call_Setup c = Inr (snd (Setup P c))"
| "do_event P (Call_RegisterClient cd ha cb arg) c =
     (case RegisterClient P cd ha cb arg (snd c) of
        Inl a \<Rightarrow> Inl (Failed a)
      | Inr (result, out_index, s1) \<Rightarrow> Inr (fst c, s1))"
| "do_event P (Call_SubmitFrame index samples_ptr) c =
     (case SubmitFrame P index samples_ptr (snd c) of
        Inl a \<Rightarrow> Inl (Failed a)
      | Inr s1 \<Rightarrow> Inr (fst c, s1))"
| "do_event P (Call_UnregisterClient index) c =
     (case UnregisterClient P index (snd c) of
        Inl a \<Rightarrow> Inl (Failed a)
      | Inr s1 \<Rightarrow> Inr (fst c, s1))"
| "do_event P Worker c =
     (case fst c of
        None \<Rightarrow> Inl Not_enabled
      | Some pc \<Rightarrow>
          (case worker_step P (pc, snd c) of
             None \<Rightarrow> Inl Not_enabled
           | Some (pc1, s1) \<Rightarrow> Inr (Some pc1, s1)))"
| "do_event P Shutdown_1 c = Inr (fst c, Shutdown_clear_running (snd c))"
| "do_event P Shutdown_2 c = Inr (fst c, Shutdown_SetEvent (snd c))"
| "do_event P Shutdown_3 c =
     (case Shutdown_Wait c of None \<Rightarrow> Inl Not_enabled | Some c1 \<Rightarrow> Inr c1)"
| "do_event P Shutdown_4 c = Inr (Shutdown_reset c)"

fun run_events :: "platform \<Rightarrow> event list \<Rightarrow> config \<Rightarrow> stop + config" where
  "run_events P [] c = Inr c"
| "run_events P (e # es) c =
     (case do_event P e c of Inl x \<Rightarrow> Inl x | Inr c1 \<Rightarrow> run_events P es c1)"

subsection \<open>Invariants and observations\<close>

text \<open>A slot is occupied when its record has a driver.\<close>

definition occupied :: "audio_system \<Rightarrow> nat" where
  "occupied s = length (filter (\<lambda>c. driver c \<noteq> 0) (clients s))"

text \<open>
  The table as the constructor leaves it and the operations keep it: one record and one
  semaphore per slot, every semaphore with the maximum it was created with, and the queue
  holding each slot without a driver exactly once.
\<close>

definition table_ok :: "platform \<Rightarrow> audio_system \<Rightarrow> bool" where
  "table_ok P s \<longleftrightarrow>
     length (clients s) = kMaximumClientCount P \<and>
     length (client_semaphores s) = kMaximumClientCount P \<and>
     list_all (\<lambda>h. sem_max h = kMaximumQueuedFrames P) (client_semaphores s) \<and>
     distinct (unused_clients s) \<and>
     set (unused_clients s) =
       set (filter (\<lambda>i. driver (clients s ! i) = 0) [0 ..< kMaximumClientCount P])"

text \<open>What the processor is asked to run for the slots \<open>ks\<close>, in that order.\<close>

definition invocations :: "client list \<Rightarrow> nat list \<Rightarrow> (32 word \<times> 64 word list) list" where
  "invocations cl ks =
     map (\<lambda>k. (callback (cl ! k), [ucast (wrapped_callback_arg (cl ! k))]))
         (filter (\<lambda>k. callback (cl ! k) \<noteq> 0) ks)"

text \<open>
  The slots one sweep reaches from its first index: that index, then the following ones for
  as long as each has a signalled semaphore.
\<close>

definition swept_slots :: "platform \<Rightarrow> nat \<Rightarrow> audio_system \<Rightarrow> nat list" where
  "swept_slots P index s =
     index # takeWhile (\<lambda>k. 0 < sem_count (client_semaphores s ! k))
                       [Suc index ..< kMaximumClientCount P]"

text \<open>A platform for the examples: \<open>n\<close> slots, 64 queued frames, failure in the top two bits.\<close>

definition example_platform :: "nat \<Rightarrow> platform" where
  "example_platform n =
     \<lparr>kMaximumClientCount = n, kMaximumQueuedFrames = 64, X_STATUS_SUCCESS = 0,
      XFAILED = (\<lambda>r. and r 0xC0000000 \<noteq> 0)\<rparr>"

text \<open>A factory that succeeds with a driver per slot, and one that fails.\<close>

definition driver_created :: "nat \<Rightarrow> semaphore \<Rightarrow> X_STATUS \<times> nat" where
  "driver_created index h = (0, index + 1)"

definition driver_failed :: "nat \<Rightarrow> semaphore \<Rightarrow> X_STATUS \<times> nat" where
  "driver_failed index h = (0xC0000001, 0)"

text \<open>An allocator answer: the block at the given address.\<close>

definition block_at :: "32 word \<Rightarrow> nat \<Rightarrow> 32 word" where
  "block_at ptr n = ptr"

text \<open>
  Calls on a table of two slots: both are registered, both are given back, the higher one
  first, and both are registered again.
\<close>

definition example_calls :: "call list" where
  "example_calls =
     [Register driver_created (block_at 0x1000) 0x100 7,
      Register driver_created (block_at 0x1004) 0x200 9,
      Unregister 1, Unregister 0,
      Register driver_created (block_at 0x1008) 0x300 11,
      Register driver_created (block_at 0x100C) 0x400 13]"



text \<open>
  Calls on a table of four slots that leave slot 0 free again with its semaphore empty, so
  that the next registration takes slot 1.
\<close>

definition example_calls_reuse :: "call list" where
  "example_calls_reuse =
     [Register driver_created (block_at 0x1000) 0x100 7, Unregister 0]"

text \<open>
  Two measures of where the worker stands once the running flag is clear: a bound on the
  steps it still takes before it has exited, and a bound on the callbacks it may still
  run.
\<close>

fun steps_to_exit :: "platform \<Rightarrow> worker_pc \<Rightarrow> nat" where
  "steps_to_exit P Exited = 0"
| "steps_to_exit P (AfterSweep pumped) = 1"
| "steps_to_exit P LoopHead = 1"
| "steps_to_exit P (SweepCond index pumped) = 2 * (kMaximumClientCount P - index) + 2"
| "steps_to_exit P (Pumping index pumped) = 2 * (kMaximumClientCount P - Suc index) + 3"
| "steps_to_exit P Waiting = 2 * kMaximumClientCount P + 2"

fun calls_left :: "platform \<Rightarrow> worker_pc \<Rightarrow> nat" where
  "calls_left P Waiting = kMaximumClientCount P"
| "calls_left P (Pumping index pumped) = Suc (kMaximumClientCount P - Suc index)"
| "calls_left P (SweepCond index pumped) = kMaximumClientCount P - index"
| "calls_left P pc = 0"

text \<open>
  An interleaving on a table of eight slots. The worker is started and reaches its wait; two
  clients register; the worker wakes on slot 0 and runs its callback; then \<^verbatim>\<open>Shutdown\<close>
  clears the running flag and sets the event.
\<close>

definition example_shutdown_race :: "event list" where
  "example_shutdown_race =
     [Call_Setup, Worker,
      Call_RegisterClient driver_created (block_at 0x1000) 0x100 7,
      Call_RegisterClient driver_created (block_at 0x1004) 0x200 9,
      Worker, Worker, Shutdown_1, Shutdown_2]"

text \<open>
  The same interleaving up to the point where the worker stands between the callbacks of
  slots 0 and 1, before \<^verbatim>\<open>Shutdown\<close> is called.
\<close>

definition example_mid_sweep :: "event list" where
  "example_mid_sweep =
     [Call_Setup, Worker,
      Call_RegisterClient driver_created (block_at 0x1000) 0x100 7,
      Call_RegisterClient driver_created (block_at 0x1004) 0x200 9,
      Worker, Worker]"

section \<open>Properties\<close>

subsection \<open>Basic facts\<close>

lemma upt_8: "[0 ..< 8] = [0, 1, 2, 3, 4, 5, 6, 7]"
  by (simp add: upt_rec)

lemma replicate_8: "replicate 8 x = [x, x, x, x, x, x, x, x]"
  by (simp add: numeral_eq_Suc)

lemma upt_4: "[0 ..< 4] = [0, 1, 2, 3]"
  by (simp add: upt_rec)

lemma replicate_4: "replicate 4 x = [x, x, x, x]"
  by (simp add: numeral_eq_Suc)

text \<open>The draining loop ends with a time-out, the count at zero, after one wait per unit and one more.\<close>

lemma drain_result:
  "drain h waits = (WAIT_TIMEOUT, h\<lparr>sem_count := 0\<rparr>, waits + sem_count h + 1)"
proof (induction h waits rule: drain.induct)
  case (1 h waits)
  show ?case
  proof (cases "0 < sem_count h")
    case True
    have "drain h waits = drain (h\<lparr>sem_count := sem_count h - 1\<rparr>) (waits + 1)"
      using True by (subst drain.simps) (simp add: WaitForSingleObject_def)
    also have "\<dots> = (WAIT_TIMEOUT, h\<lparr>sem_count := 0\<rparr>, waits + sem_count h + 1)"
      using True
        "1.IH" [of "(WAIT_OBJECT_0, h\<lparr>sem_count := sem_count h - 1\<rparr>)" WAIT_OBJECT_0
                   "h\<lparr>sem_count := sem_count h - 1\<rparr>"]
      by (simp add: WaitForSingleObject_def)
    finally show ?thesis .
  next
    case False
    then show ?thesis
      by (subst drain.simps)
         (simp add: WaitForSingleObject_def WAIT_OBJECT_0_def WAIT_TIMEOUT_def)
  qed
qed

lemma UnregisterClient_in_range:
  assumes "index < kMaximumClientCount P"
  shows "UnregisterClient P index s =
    Inr (s\<lparr>destroyed := destroyed s @ [driver (clients s ! index)],
           clients := (clients s)[index := zero_client],
           unused_clients := unused_clients s @ [index],
           client_semaphores :=
             (client_semaphores s)[index := (client_semaphores s ! index)\<lparr>sem_count := 0\<rparr>]\<rparr>)"
  using assms by (simp add: UnregisterClient_def drain_result Let_def)

text \<open>The two ways of writing \<^verbatim>\<open>SubmitFrame\<close> and \<^verbatim>\<open>UnregisterClient\<close> agree.\<close>

lemma SubmitFrame_effect_agrees:
  "SubmitFrame P index samples_ptr s =
     (case SubmitFrame_effect P index samples_ptr s of
        (Some a, s') \<Rightarrow> Inl a
      | (None, s') \<Rightarrow> Inr s')"
  by (simp add: SubmitFrame_def SubmitFrame_effect_def)

lemma UnregisterClient_effect_agrees:
  "UnregisterClient P index s =
     (case UnregisterClient_effect P index s of
        (Some a, s') \<Rightarrow> Inl a
      | (None, s') \<Rightarrow> Inr s')"
  by (simp add: UnregisterClient_def UnregisterClient_effect_def Let_def split: prod.splits)

lemma AudioSystem_table_ok: "table_ok P (AudioSystem P)"
  by (auto simp: table_ok_def AudioSystem_def CreateSemaphore_def zero_client_def list_all_length)

lemma occupied_card:
  "occupied s = card {i. i < length (clients s) \<and> driver (clients s ! i) \<noteq> 0}"
  by (simp add: occupied_def length_filter_conv_card)

lemma table_ok_unused_card:
  assumes "table_ok P s"
  shows "length (unused_clients s) =
         card {i. i < length (clients s) \<and> driver (clients s ! i) = 0}"
proof -
  have d: "distinct (unused_clients s)"
    using assms by (simp add: table_ok_def)
  have "set (unused_clients s) = {i. i < length (clients s) \<and> driver (clients s ! i) = 0}"
    using assms by (auto simp: table_ok_def)
  then show ?thesis
    using distinct_card [OF d] by simp
qed

lemma table_ok_sum:
  assumes "table_ok P s"
  shows "length (unused_clients s) + occupied s = kMaximumClientCount P"
proof -
  let ?n = "length (clients s)"
  let ?free = "{i. i < ?n \<and> driver (clients s ! i) = 0}"
  let ?occ = "{i. i < ?n \<and> driver (clients s ! i) \<noteq> 0}"
  have "card ?free + card ?occ = card (?free \<union> ?occ)"
    by (rule card_Un_disjoint [symmetric]) auto
  also have "?free \<union> ?occ = {..<?n}"
    by auto
  finally have "card ?free + card ?occ = ?n"
    by simp
  then show ?thesis
    using assms by (simp add: table_ok_unused_card occupied_card) (simp add: table_ok_def)
qed

lemma occupied_update_free:
  assumes "driver (clients s ! index) = 0"
  shows "occupied (s\<lparr>clients := (clients s)[index := zero_client]\<rparr>) = occupied s"
proof -
  have "driver ((clients s)[index := zero_client] ! i) = driver (clients s ! i)"
    if "i < length (clients s)" for i
    using assms that by (cases "i = index") (simp_all add: zero_client_def)
  then have "{i. i < length (clients s) \<and> driver ((clients s)[index := zero_client] ! i) \<noteq> 0}
    = {i. i < length (clients s) \<and> driver (clients s ! i) \<noteq> 0}"
    by auto
  then show ?thesis
    by (simp add: occupied_card)
qed

lemmas example_defs =
  RegisterClient_def UnregisterClient_in_range AudioSystem_def example_platform_def
  driver_created_def driver_failed_def block_at_def ReleaseSemaphore_def CreateSemaphore_def
  store_and_swap_def zero_client_def Let_def upt_8 replicate_8

text \<open>What a registration that returns has done, with and without a driver.\<close>

lemma RegisterClient_success:
  assumes "RegisterClient P cd ha cb arg s = Inr (r, Some i, s')"
  shows "unused_clients s \<noteq> [] \<and> i = hd (unused_clients s) \<and> r = X_STATUS_SUCCESS P \<and>
         0 < kMaximumQueuedFrames P \<and>
         sem_count (client_semaphores s ! i) + kMaximumQueuedFrames P \<le> sem_max (client_semaphores s ! i) \<and>
         snd (cd i ((client_semaphores s ! i)\<lparr>sem_count := sem_count (client_semaphores s ! i) + kMaximumQueuedFrames P\<rparr>)) \<noteq> 0 \<and>
         s' = s\<lparr>client_semaphores := (client_semaphores s)
                   [i := (client_semaphores s ! i)\<lparr>sem_count := sem_count (client_semaphores s ! i) + kMaximumQueuedFrames P\<rparr>],
                unused_clients := tl (unused_clients s),
                heap_blocks := heap_blocks s @ [ha 4],
                guest_memory := (guest_memory s)(ha 4 := byte_swap arg),
                clients := (clients s)
                   [i := \<lparr>driver = snd (cd i ((client_semaphores s ! i)\<lparr>sem_count := sem_count (client_semaphores s ! i) + kMaximumQueuedFrames P\<rparr>)),
                          callback = cb, callback_arg = arg, wrapped_callback_arg = ha 4\<rparr>]\<rparr>"
  using assms
  by (auto simp: RegisterClient_def ReleaseSemaphore_def store_and_swap_def Let_def
           split: if_splits prod.splits)

lemma RegisterClient_failure:
  assumes "RegisterClient P cd ha cb arg s = Inr (r, None, s')"
  shows "unused_clients s \<noteq> [] \<and> XFAILED P r \<and>
         r = fst (cd (hd (unused_clients s)) ((client_semaphores s ! hd (unused_clients s))\<lparr>sem_count := sem_count (client_semaphores s ! hd (unused_clients s)) + kMaximumQueuedFrames P\<rparr>)) \<and>
         s' = s\<lparr>client_semaphores := (client_semaphores s)
                   [hd (unused_clients s) := (client_semaphores s ! hd (unused_clients s))
                      \<lparr>sem_count := sem_count (client_semaphores s ! hd (unused_clients s)) + kMaximumQueuedFrames P\<rparr>]\<rparr>"
  using assms
  by (auto simp: RegisterClient_def ReleaseSemaphore_def store_and_swap_def Let_def
           split: if_splits prod.splits)

text \<open>The operations keep the table in order.\<close>




lemma list_all_update:
  assumes "list_all Q xs" and "Q x"
  shows "list_all Q (xs[i := x])"
  using assms set_update_subset_insert [of xs i x] by (auto simp: list_all_iff)

lemma table_ok_semaphore_update:
  assumes "table_ok P s" and "sem_max h = kMaximumQueuedFrames P"
  shows "table_ok P (s\<lparr>client_semaphores := (client_semaphores s)[i := h]\<rparr>)"
  using assms by (simp add: table_ok_def list_all_update)

lemma table_ok_register_failure:
  assumes "table_ok P s" and "RegisterClient P cd ha cb arg s = Inr (r, None, s')"
  shows "table_ok P s'"
proof -
  let ?i = "hd (unused_clients s)"
  have ne: "unused_clients s \<noteq> []"
    using RegisterClient_failure [OF assms(2)] by simp
  then have "?i \<in> set (unused_clients s)"
    by simp
  then have "?i < length (client_semaphores s)"
    using assms(1) by (simp add: table_ok_def)
  then have "sem_max (client_semaphores s ! ?i) = kMaximumQueuedFrames P"
    using assms(1) by (simp add: table_ok_def list_all_length)
  then show ?thesis
    using RegisterClient_failure [OF assms(2)] assms(1)
    by (simp add: table_ok_semaphore_update)
qed

lemma table_ok_register_success:
  assumes "table_ok P s" and "RegisterClient P cd ha cb arg s = Inr (r, Some i, s')"
  shows "table_ok P s'"
proof -
  note R = RegisterClient_success [OF assms(2)]
  let ?n = "kMaximumClientCount P"
  from R obtain rest where u: "unused_clients s = i # rest"
    by (cases "unused_clients s") auto
  have i_in: "i \<in> set (unused_clients s)"
    by (simp add: u)
  then have i_lt: "i < ?n"
    using assms(1) by (simp add: table_ok_def)
  have len: "length (clients s) = ?n" "length (client_semaphores s) = ?n"
    using assms(1) by (simp_all add: table_ok_def)
  have i_notin: "i \<notin> set rest" and d: "distinct rest"
    using assms(1) by (simp_all add: table_ok_def u)
  have free: "set (unused_clients s) = {j. j < ?n \<and> driver (clients s ! j) = 0}"
    using assms(1) by (auto simp: table_ok_def)
  have cl: "clients s' = (clients s)[i := clients s' ! i]" and drv: "driver (clients s' ! i) \<noteq> 0"
    and un: "unused_clients s' = rest"
    and sm: "client_semaphores s' = (client_semaphores s)
       [i := (client_semaphores s ! i)\<lparr>sem_count := sem_count (client_semaphores s ! i) + kMaximumQueuedFrames P\<rparr>]"
    using R i_lt len by (simp_all add: u)
  have other: "clients s' ! j = clients s ! j" if "j \<noteq> i" for j
    using that by (subst cl) simp
  have "set rest = {j. j < ?n \<and> driver (clients s' ! j) = 0}"
  proof (rule set_eqI)
    fix j
    show "j \<in> set rest \<longleftrightarrow> j \<in> {j. j < ?n \<and> driver (clients s' ! j) = 0}"
    proof (cases "j = i")
      case True
      then show ?thesis using i_notin drv by simp
    next
      case False
      have "j \<in> set rest \<longleftrightarrow> j \<in> set (unused_clients s)"
        using False by (simp add: u)
      then show ?thesis
        using False by (simp add: free other)
    qed
  qed
  moreover have "sem_max (client_semaphores s ! i) = kMaximumQueuedFrames P"
    using assms(1) i_lt by (simp add: table_ok_def list_all_length)
  then have "list_all (\<lambda>h. sem_max h = kMaximumQueuedFrames P) (client_semaphores s')"
    using assms(1) unfolding sm by (simp add: table_ok_def list_all_update)
  moreover have "length (clients s') = ?n"
    using len by (subst cl) simp
  moreover have "length (client_semaphores s') = ?n"
    using len by (simp add: sm)
  ultimately show ?thesis
    using d un by (auto simp: table_ok_def)
qed

lemma table_ok_unregister:
  assumes "table_ok P s" and "index < kMaximumClientCount P"
      and "driver (clients s ! index) \<noteq> 0"
      and "UnregisterClient P index s = Inr s'"
  shows "table_ok P s'"
proof -
  let ?n = "kMaximumClientCount P"
  have s': "s' = s\<lparr>destroyed := destroyed s @ [driver (clients s ! index)],
           clients := (clients s)[index := zero_client],
           unused_clients := unused_clients s @ [index],
           client_semaphores :=
             (client_semaphores s)[index := (client_semaphores s ! index)\<lparr>sem_count := 0\<rparr>]\<rparr>"
    using assms(2,4) by (simp add: UnregisterClient_in_range)
  have len: "length (clients s) = ?n" "length (client_semaphores s) = ?n"
    using assms(1) by (simp_all add: table_ok_def)
  have free: "set (unused_clients s) = {j. j < ?n \<and> driver (clients s ! j) = 0}"
    using assms(1) by (auto simp: table_ok_def)
  have notin: "index \<notin> set (unused_clients s)"
    using assms(3) by (simp add: free)
  have "set (unused_clients s @ [index]) =
        {j. j < ?n \<and> driver ((clients s)[index := zero_client] ! j) = 0}"
    using assms(2) len by (auto simp: free nth_list_update zero_client_def)
  moreover have "sem_max (client_semaphores s ! index) = kMaximumQueuedFrames P"
    using assms(1,2) by (simp add: table_ok_def list_all_length)
  then have "list_all (\<lambda>h. sem_max h = kMaximumQueuedFrames P)
      ((client_semaphores s)[index := (client_semaphores s ! index)\<lparr>sem_count := 0\<rparr>])"
    using assms(1) by (simp add: table_ok_def list_all_update)
  moreover have "distinct (unused_clients s @ [index])"
    using assms(1) notin by (simp add: table_ok_def)
  ultimately show ?thesis
    using len unfolding s' by (auto simp: table_ok_def)
qed

lemma run_calls_fifo:
  "run_calls P s calls = Inr (regs, s') \<Longrightarrow>
   unused_clients s @ unregistered calls = regs @ unused_clients s'"
proof (induction calls arbitrary: s regs)
  case Nil
  then show ?case by simp
next
  case (Cons c cs)
  show ?case
  proof (cases c)
    case (Register cd ha cb arg)
    from Cons.prems Register obtain r oi s1 regs1 where
      reg: "RegisterClient P cd ha cb arg s = Inr (r, oi, s1)" and
      rest: "run_calls P s1 cs = Inr (regs1, s')" and
      regs: "regs = (case oi of None \<Rightarrow> [] | Some i \<Rightarrow> [i]) @ regs1"
      by (auto split: sum.splits prod.splits)
    note IH = Cons.IH [OF rest]
    show ?thesis
    proof (cases oi)
      case None
      then have "unused_clients s1 = unused_clients s"
        using RegisterClient_failure [of P cd ha cb arg s r s1] reg by simp
      then show ?thesis using IH regs None Register by simp
    next
      case (Some i)
      then have "unused_clients s = i # unused_clients s1"
        using RegisterClient_success [of P cd ha cb arg s r i s1] reg
        by (cases "unused_clients s") auto
      then show ?thesis using IH regs Some Register by simp
    qed
  next
    case (Unregister index)
    from Cons.prems Unregister obtain s1 where
      un: "UnregisterClient P index s = Inr s1" and
      rest: "run_calls P s1 cs = Inr (regs, s')"
      by (auto split: sum.splits)
    have "index < kMaximumClientCount P"
      using un by (auto simp: UnregisterClient_def split: if_splits)
    then have "unused_clients s1 = unused_clients s @ [index]"
      using un by (auto simp: UnregisterClient_in_range)
    then show ?thesis using Cons.IH [OF rest] Unregister by simp
  qed
qed

lemma run_calls_table_ok:
  "table_ok P s \<Longrightarrow> preconditions_hold P s calls \<Longrightarrow>
   run_calls P s calls = Inr (regs, s') \<Longrightarrow> table_ok P s'"
proof (induction calls arbitrary: s regs)
  case Nil
  then show ?case by simp
next
  case (Cons c cs)
  show ?case
  proof (cases c)
    case (Register cd ha cb arg)
    from Cons.prems(3) Register obtain r oi s1 regs1 where
      reg: "RegisterClient P cd ha cb arg s = Inr (r, oi, s1)" and
      rest: "run_calls P s1 cs = Inr (regs1, s')"
      by (auto split: sum.splits prod.splits)
    have pre: "preconditions_hold P s1 cs"
      using Cons.prems(2) Register reg by simp
    have "table_ok P s1"
      using table_ok_register_failure [OF Cons.prems(1)] table_ok_register_success [OF Cons.prems(1)] reg
      by (cases oi) blast+
    then show ?thesis
      using Cons.IH pre rest by blast
  next
    case (Unregister index)
    from Cons.prems(3) Unregister obtain s1 where
      un: "UnregisterClient P index s = Inr s1" and
      rest: "run_calls P s1 cs = Inr (regs, s')"
      by (auto split: sum.splits)
    have pre: "index < kMaximumClientCount P" "driver (clients s ! index) \<noteq> 0"
         "preconditions_hold P s1 cs"
      using Cons.prems(2) Unregister un by simp_all
    have "table_ok P s1"
      using table_ok_unregister [OF Cons.prems(1) pre(1,2) un] .
    then show ?thesis
      using Cons.IH pre(3) rest by blast
  qed
qed

text \<open>
  A sequence whose callers keep the preconditions and whose factories all succeed with a
  driver runs to its end: no assertion stops it.
\<close>

lemma RegisterClient_returns:
  assumes "unused_clients s \<noteq> []"
      and "0 < kMaximumQueuedFrames P"
      and "sem_count (client_semaphores s ! hd (unused_clients s)) = 0"
      and "sem_max (client_semaphores s ! hd (unused_clients s)) = kMaximumQueuedFrames P"
      and "\<And>i h. \<not> XFAILED P (fst (cd i h)) \<and> snd (cd i h) \<noteq> 0"
  shows "\<exists>s1. RegisterClient P cd ha cb arg s =
           Inr (X_STATUS_SUCCESS P, Some (hd (unused_clients s)), s1)"
  using assms
  by (simp add: RegisterClient_def ReleaseSemaphore_def Let_def case_prod_beta)

lemma run_calls_returns:
  assumes "0 < kMaximumQueuedFrames P"
      and "\<forall>cd ha cb arg. Register cd ha cb arg \<in> set calls \<longrightarrow>
             (\<forall>i h. \<not> XFAILED P (fst (cd i h)) \<and> snd (cd i h) \<noteq> 0)"
      and "table_ok P s"
      and "\<forall>i\<in>set (unused_clients s). sem_count (client_semaphores s ! i) = 0"
      and "preconditions_hold P s calls"
  shows "\<exists>regs s'. run_calls P s calls = Inr (regs, s')"
  using assms(2-5)
proof (induction calls arbitrary: s)
  case Nil
  then show ?case by simp
next
  case (Cons c cs)
  have good: "\<forall>cd ha cb arg. Register cd ha cb arg \<in> set cs \<longrightarrow>
             (\<forall>i h. \<not> XFAILED P (fst (cd i h)) \<and> snd (cd i h) \<noteq> 0)"
    using Cons.prems(1) by simp
  let ?n = "kMaximumClientCount P"
  have len: "length (client_semaphores s) = ?n" "length (clients s) = ?n"
    using Cons.prems(2) by (simp_all add: table_ok_def)
  have free: "set (unused_clients s) = {j. j < ?n \<and> driver (clients s ! j) = 0}"
    using Cons.prems(2) by (auto simp: table_ok_def)
  show ?case
  proof (cases c)
    case (Register cd ha cb arg)
    let ?i = "hd (unused_clients s)"
    have ne: "unused_clients s \<noteq> []"
      using Cons.prems(4) Register by simp
    then have i_in: "?i \<in> set (unused_clients s)"
      by simp
    then have i_lt: "?i < ?n"
      by (simp add: free)
    have zero: "sem_count (client_semaphores s ! ?i) = 0"
      using Cons.prems(3) i_in by blast
    have mx: "sem_max (client_semaphores s ! ?i) = kMaximumQueuedFrames P"
      using Cons.prems(2) i_lt by (simp add: table_ok_def list_all_length)
    have "\<And>i h. \<not> XFAILED P (fst (cd i h)) \<and> snd (cd i h) \<noteq> 0"
      using Cons.prems(1) Register by simp
    then obtain s1 where
      reg: "RegisterClient P cd ha cb arg s = Inr (X_STATUS_SUCCESS P, Some ?i, s1)"
      using RegisterClient_returns [OF ne assms(1) zero mx] by blast
    note R = RegisterClient_success [OF reg]
    have ok1: "table_ok P s1"
      using table_ok_register_success [OF Cons.prems(2) reg] .
    have d: "distinct (unused_clients s)"
      using Cons.prems(2) by (simp add: table_ok_def)
    have idle1: "\<forall>j\<in>set (unused_clients s1). sem_count (client_semaphores s1 ! j) = 0"
    proof
      fix j assume j: "j \<in> set (unused_clients s1)"
      then have "j \<in> set (tl (unused_clients s))"
        using R by simp
      then have "j \<noteq> ?i" "j \<in> set (unused_clients s)"
        using d ne by (cases "unused_clients s"; auto)+
      then show "sem_count (client_semaphores s1 ! j) = 0"
        using R Cons.prems(3) by simp
    qed
    have pre1: "preconditions_hold P s1 cs"
      using Cons.prems(4) Register reg by simp
    obtain regs s' where "run_calls P s1 cs = Inr (regs, s')"
      using Cons.IH [OF good ok1 idle1 pre1] by blast
    then show ?thesis
      using Register reg by simp
  next
    case (Unregister index)
    have pre: "index < ?n" "driver (clients s ! index) \<noteq> 0"
      using Cons.prems(4) Unregister by simp_all
    define s1 where "s1 = s\<lparr>destroyed := destroyed s @ [driver (clients s ! index)],
           clients := (clients s)[index := zero_client],
           unused_clients := unused_clients s @ [index],
           client_semaphores :=
             (client_semaphores s)[index := (client_semaphores s ! index)\<lparr>sem_count := 0\<rparr>]\<rparr>"
    have un: "UnregisterClient P index s = Inr s1"
      unfolding s1_def using pre(1) by (rule UnregisterClient_in_range)
    have ok1: "table_ok P s1"
      using table_ok_unregister [OF Cons.prems(2) pre un] .
    have notin: "index \<notin> set (unused_clients s)"
      using pre(2) by (simp add: free)
    have idle1: "\<forall>j\<in>set (unused_clients s1). sem_count (client_semaphores s1 ! j) = 0"
    proof
      fix j assume "j \<in> set (unused_clients s1)"
      then consider "j = index" | "j \<in> set (unused_clients s)" "j \<noteq> index"
        using notin by (auto simp: s1_def)
      then show "sem_count (client_semaphores s1 ! j) = 0"
      proof cases
        case 1
        then show ?thesis using pre(1) len by (simp add: s1_def)
      next
        case 2
        then show ?thesis using Cons.prems(3) by (simp add: s1_def)
      qed
    qed
    have pre1: "preconditions_hold P s1 cs"
      using Cons.prems(4) Unregister un by simp
    obtain regs s' where "run_calls P s1 cs = Inr (regs, s')"
      using Cons.IH [OF good ok1 idle1 pre1] by blast
    then show ?thesis
      using Unregister un by simp
  qed
qed

text \<open>The state the examples of a second registration start from.\<close>

lemma example_calls_reuse_state:
  "\<exists>s. run_calls (example_platform 4) (AudioSystem (example_platform 4)) example_calls_reuse
          = Inr ([0], s) \<and>
       table_ok (example_platform 4) s \<and>
       sem_count (client_semaphores s ! 0) = 0 \<and>
       executed s = [] \<and> submitted s = [] \<and>
       (\<exists>s'. RegisterClient (example_platform 4) driver_created (block_at 0x1004) 0x200 0x12345678 s
               = Inr (0, Some 1, s'))"
proof -
  have pre: "preconditions_hold (example_platform 4) (AudioSystem (example_platform 4)) example_calls_reuse"
    by (simp add: example_calls_reuse_def example_defs upt_4 replicate_4)
  have "\<exists>s. run_calls (example_platform 4) (AudioSystem (example_platform 4)) example_calls_reuse
          = Inr ([0], s) \<and>
       sem_count (client_semaphores s ! 0) = 0 \<and>
       executed s = [] \<and> submitted s = [] \<and>
       (\<exists>s'. RegisterClient (example_platform 4) driver_created (block_at 0x1004) 0x200 0x12345678 s
               = Inr (0, Some 1, s'))"
    by (simp add: example_calls_reuse_def example_defs upt_4 replicate_4)
  then obtain s where
    both: "run_calls (example_platform 4) (AudioSystem (example_platform 4)) example_calls_reuse
          = Inr ([0], s) \<and>
       sem_count (client_semaphores s ! 0) = 0 \<and>
       executed s = [] \<and> submitted s = [] \<and>
       (\<exists>s'. RegisterClient (example_platform 4) driver_created (block_at 0x1004) 0x200 0x12345678 s
               = Inr (0, Some 1, s'))" ..
  note run = both [THEN conjunct1] and rest = both [THEN conjunct2]
  have "table_ok (example_platform 4) s"
    using run_calls_table_ok [OF AudioSystem_table_ok pre run] .
  then show ?thesis
    using run rest by blast
qed

subsection \<open>Facts about the sweep\<close>

lemma pump_client_fields [simp]:
  "clients (pump_client index s) = clients s"
  "client_semaphores (pump_client index s) = client_semaphores s"
  "worker_running (pump_client index s) = worker_running s"
  "shutdown_event (pump_client index s) = shutdown_event s"
  by (simp_all add: pump_client_def Let_def)

lemma pump_client_executed:
  "executed (pump_client index s) = executed s @ invocations (clients s) [index]"
  by (simp add: pump_client_def invocations_def Let_def)

lemma invocations_Cons:
  "invocations cl (k # ks) = invocations cl [k] @ invocations cl ks"
  by (simp add: invocations_def)

lemma swept_slots_step:
  assumes "Suc index < kMaximumClientCount P" and "0 < sem_count (client_semaphores s ! Suc index)"
  shows "swept_slots P index s = index # swept_slots P (Suc index) s"
  using assms by (simp add: swept_slots_def upt_conv_Cons)

lemma swept_slots_stop:
  assumes "\<not> (Suc index < kMaximumClientCount P \<and> 0 < sem_count (client_semaphores s ! Suc index))"
  shows "swept_slots P index s = [index]"
proof (cases "Suc index < kMaximumClientCount P")
  case True
  then show ?thesis
    using assms by (simp add: swept_slots_def upt_conv_Cons)
next
  case False
  then show ?thesis
    by (simp add: swept_slots_def)
qed

lemma swept_slots_cong:
  assumes "\<And>k. index < k \<Longrightarrow> client_semaphores s' ! k = client_semaphores s ! k"
  shows "swept_slots P index s' = swept_slots P index s"
proof -
  have "takeWhile (\<lambda>k. 0 < sem_count (client_semaphores s' ! k)) [Suc index ..< kMaximumClientCount P]
      = takeWhile (\<lambda>k. 0 < sem_count (client_semaphores s ! k)) [Suc index ..< kMaximumClientCount P]"
    by (rule takeWhile_cong) (simp_all add: assms)
  then show ?thesis
    by (simp add: swept_slots_def)
qed

lemma sweep_step:
  assumes "Suc index < kMaximumClientCount P" and "0 < sem_count (client_semaphores s ! Suc index)"
  shows "sweep P index pumped s =
     sweep P (Suc index) (Suc pumped)
       ((pump_client index s)\<lparr>client_semaphores := (client_semaphores s)
          [Suc index := (client_semaphores s ! Suc index)
             \<lparr>sem_count := sem_count (client_semaphores s ! Suc index) - 1\<rparr>]\<rparr>)"
  using assms
  by (subst sweep.simps) (simp add: Let_def WaitForSingleObject_def)

lemma sweep_stop:
  assumes "\<not> (Suc index < kMaximumClientCount P \<and> 0 < sem_count (client_semaphores s ! Suc index))"
  shows "sweep P index pumped s = (Suc pumped, pump_client index s)"
proof (cases "Suc index < kMaximumClientCount P")
  case True
  then show ?thesis
    using assms
    by (subst sweep.simps)
       (simp add: Let_def WaitForSingleObject_def WAIT_OBJECT_0_def WAIT_TIMEOUT_def)
next
  case False
  then show ?thesis
    by (subst sweep.simps) (simp add: Let_def)
qed

lemma sweep_result:
  "fst (sweep P index pumped s) = pumped + length (swept_slots P index s) \<and>
   executed (snd (sweep P index pumped s)) =
     executed s @ invocations (clients s) (swept_slots P index s) \<and>
   clients (snd (sweep P index pumped s)) = clients s \<and>
   worker_running (snd (sweep P index pumped s)) = worker_running s"
proof (induction "kMaximumClientCount P - index" arbitrary: index pumped s)
  case 0
  then have stop: "\<not> (Suc index < kMaximumClientCount P \<and> 0 < sem_count (client_semaphores s ! Suc index))"
    by simp
  show ?case
    by (simp add: sweep_stop [OF stop] swept_slots_stop [OF stop] pump_client_executed)
next
  case (Suc n)
  show ?case
  proof (cases "Suc index < kMaximumClientCount P \<and> 0 < sem_count (client_semaphores s ! Suc index)")
    case False
    show ?thesis
      by (simp add: sweep_stop [OF False] swept_slots_stop [OF False] pump_client_executed)
  next
    case True
    let ?s1 = "(pump_client index s)\<lparr>client_semaphores := (client_semaphores s)
                [Suc index := (client_semaphores s ! Suc index)
                   \<lparr>sem_count := sem_count (client_semaphores s ! Suc index) - 1\<rparr>]\<rparr>"
    have m: "n = kMaximumClientCount P - Suc index"
      using Suc.hyps(2) by simp
    have same: "swept_slots P (Suc index) ?s1 = swept_slots P (Suc index) s"
      by (rule swept_slots_cong) simp
    have unf: "sweep P index pumped s = sweep P (Suc index) (Suc pumped) ?s1"
      using True by (simp add: sweep_step)
    have sl: "swept_slots P index s = index # swept_slots P (Suc index) s"
      using True by (simp add: swept_slots_step)
    have ex: "executed ?s1 = executed s @ invocations (clients s) [index]"
      by (simp add: pump_client_executed)
    have cl: "clients ?s1 = clients s" "worker_running ?s1 = worker_running s"
      by simp_all
    have inv: "invocations (clients s) (index # swept_slots P (Suc index) s) =
               invocations (clients s) [index] @ invocations (clients s) (swept_slots P (Suc index) s)"
      by (rule invocations_Cons)
    show ?thesis
      using Suc.hyps(1) [OF m, of "Suc pumped" ?s1]
      unfolding unf sl same ex cl inv
      by simp
  qed
qed

lemma WaitForMultipleObjectsEx_lowest:
  assumes "i < kMaximumClientCount P"
      and "0 < sem_count (client_semaphores s ! i)"
      and "\<forall>j<i. sem_count (client_semaphores s ! j) = 0"
  shows "WaitForMultipleObjectsEx P s =
         Some (i, s\<lparr>client_semaphores := (client_semaphores s)
                       [i := (client_semaphores s ! i)\<lparr>sem_count := sem_count (client_semaphores s ! i) - 1\<rparr>]\<rparr>)"
proof -
  have "find (\<lambda>i. 0 < sem_count (client_semaphores s ! i)) [0 ..< kMaximumClientCount P] = Some i"
    unfolding find_Some_iff using assms by (intro exI [of _ i]) simp
  then show ?thesis
    using assms(2) by (simp add: WaitForMultipleObjectsEx_def WaitForSingleObject_def WAIT_OBJECT_0_def)
qed

lemma WorkerLoopBody_sweeps:
  assumes "kMaximumClientCount P < 64"
      and "i < kMaximumClientCount P"
      and "0 < sem_count (client_semaphores s ! i)"
      and "\<forall>j<i. sem_count (client_semaphores s ! j) = 0"
  shows "\<exists>s'. WorkerLoopBody P s = Some (if worker_running s then Continue else Break, s') \<and>
              executed s' = executed s @ invocations (clients s) (swept_slots P i s) \<and>
              clients s' = clients s"
proof -
  define s1 where "s1 = s\<lparr>client_semaphores := (client_semaphores s)
                [i := (client_semaphores s ! i)\<lparr>sem_count := sem_count (client_semaphores s ! i) - 1\<rparr>]\<rparr>"
  have w: "WaitForMultipleObjectsEx P s = Some (i, s1)"
    unfolding s1_def using assms(2-4) by (rule WaitForMultipleObjectsEx_lowest)
  have s1: "clients s1 = clients s" "executed s1 = executed s" "worker_running s1 = worker_running s"
    by (simp_all add: s1_def)
  have r: "i \<noteq> WAIT_FAILED" "i \<noteq> WAIT_OBJECT_0 + kMaximumClientCount P"
          "WAIT_OBJECT_0 \<le> i \<and> i \<le> WAIT_OBJECT_0 + (kMaximumClientCount P - 1)"
          "i - WAIT_OBJECT_0 = i"
    using assms(1,2) by (simp_all add: WAIT_FAILED_def WAIT_OBJECT_0_def)
  have same: "swept_slots P i s1 = swept_slots P i s"
    by (rule swept_slots_cong) (simp add: s1_def)
  obtain pumped s2 where sw: "sweep P i 0 s1 = (pumped, s2)"
    by (cases "sweep P i 0 s1")
  have body: "WorkerLoopBody P s = Some (if worker_running s2 then Continue else Break, s2)"
    using r by (simp add: WorkerLoopBody_def w sw)
  have "executed s2 = executed s @ invocations (clients s) (swept_slots P i s)"
       "clients s2 = clients s" "worker_running s2 = worker_running s"
    using sweep_result [of P i 0 s1] unfolding sw same s1 by simp_all
  then show ?thesis
    using body by simp
qed





lemma registered_client_is_pumped:
  assumes "kMaximumClientCount P < 64"
      and "table_ok P s"
      and "RegisterClient P cd ha cb arg s = Inr (r, Some i, s')"
      and "cb \<noteq> 0"
      and "\<forall>j<i. sem_count (client_semaphores s ! j) = 0"
  shows "\<exists>e s'' rest. WorkerLoopBody P s' = Some (e, s'') \<and>
           executed s'' = executed s' @ (cb, [ucast (ha 4)]) # rest"
proof -
  note R = RegisterClient_success [OF assms(3)]
  let ?n = "kMaximumClientCount P"
  have "i \<in> set (unused_clients s)"
    using R by simp
  then have i_lt: "i < ?n"
    using assms(2) by (simp add: table_ok_def)
  have len: "length (clients s) = ?n" "length (client_semaphores s) = ?n"
    using assms(2) by (simp_all add: table_ok_def)
  have sig: "0 < sem_count (client_semaphores s' ! i)"
    using R i_lt len by simp
  have low: "\<forall>j<i. sem_count (client_semaphores s' ! j) = 0"
    using R assms(5) by simp
  have cl: "callback (clients s' ! i) = cb" "wrapped_callback_arg (clients s' ! i) = ha 4"
    using R i_lt len by simp_all
  obtain s'' where
    body: "WorkerLoopBody P s' = Some (if worker_running s' then Continue else Break, s'')" and
    ex: "executed s'' = executed s' @ invocations (clients s') (swept_slots P i s')"
    using WorkerLoopBody_sweeps [OF assms(1) i_lt sig low] by blast
  have "invocations (clients s') (swept_slots P i s') =
        invocations (clients s') [i] @ invocations (clients s') (tl (swept_slots P i s'))"
    unfolding swept_slots_def list.sel by (rule invocations_Cons)
  also have "invocations (clients s') [i] = [(cb, [ucast (ha 4)])]"
    using assms(4) by (simp add: invocations_def cl)
  finally show ?thesis
    using body ex by simp
qed

lemmas worker_defs =
  WorkerLoopBody_def WaitForMultipleObjectsEx_def WaitForSingleObject_def sweep_step sweep_stop
  pump_client_def Setup_def WAIT_OBJECT_0_def WAIT_FAILED_def WAIT_TIMEOUT_def

text \<open>
  The worker taken step by step does what the loop body does as a whole: from the wait it
  reaches the head of the loop, or the exit, in the state the body returns.
\<close>

lemma worker_run_add:
  "worker_run (a + b) P c = worker_run b P (worker_run a P c)"
proof (induction a arbitrary: c)
  case 0
  then show ?case by simp
next
  case (Suc a)
  show ?case
  proof (cases "worker_step P c")
    case None
    have "worker_run b P c = c"
      using None by (cases b) simp_all
    then show ?thesis using None by simp
  next
    case (Some c1)
    then show ?thesis using Suc.IH by simp
  qed
qed

lemma worker_steps_sweep:
  "\<exists>k. worker_run k P (Pumping index pumped, s) =
        (AfterSweep (fst (sweep P index pumped s)), snd (sweep P index pumped s))"
proof (induction "kMaximumClientCount P - index" arbitrary: index pumped s)
  case 0
  then have stop: "\<not> (Suc index < kMaximumClientCount P \<and> 0 < sem_count (client_semaphores s ! Suc index))"
    by simp
  have "worker_run 2 P (Pumping index pumped, s) = (AfterSweep (Suc pumped), pump_client index s)"
    using stop
    by (auto simp: numeral_2_eq_2 WaitForSingleObject_def WAIT_OBJECT_0_def WAIT_TIMEOUT_def)
  then show ?case
    unfolding sweep_stop [OF stop] by (intro exI [of _ 2]) simp
next
  case (Suc n)
  show ?case
  proof (cases "Suc index < kMaximumClientCount P \<and> 0 < sem_count (client_semaphores s ! Suc index)")
    case False
    have "worker_run 2 P (Pumping index pumped, s) = (AfterSweep (Suc pumped), pump_client index s)"
      using False
      by (auto simp: numeral_2_eq_2 WaitForSingleObject_def WAIT_OBJECT_0_def WAIT_TIMEOUT_def)
    then show ?thesis
      unfolding sweep_stop [OF False] by (intro exI [of _ 2]) simp
  next
    case True
    define s1 where "s1 = (pump_client index s)\<lparr>client_semaphores := (client_semaphores s)
                [Suc index := (client_semaphores s ! Suc index)
                   \<lparr>sem_count := sem_count (client_semaphores s ! Suc index) - 1\<rparr>]\<rparr>"
    have m: "n = kMaximumClientCount P - Suc index"
      using Suc.hyps(2) by simp
    have two: "worker_run 2 P (Pumping index pumped, s) = (Pumping (Suc index) (Suc pumped), s1)"
      using True by (simp add: numeral_2_eq_2 WaitForSingleObject_def s1_def)
    have unf: "sweep P index pumped s = sweep P (Suc index) (Suc pumped) s1"
      using True unfolding s1_def by (simp add: sweep_step)
    obtain k where k: "worker_run k P (Pumping (Suc index) (Suc pumped), s1) =
        (AfterSweep (fst (sweep P (Suc index) (Suc pumped) s1)), snd (sweep P (Suc index) (Suc pumped) s1))"
      using Suc.hyps(1) [OF m] by blast
    have "worker_run (2 + k) P (Pumping index pumped, s) =
        (AfterSweep (fst (sweep P index pumped s)), snd (sweep P index pumped s))"
      unfolding worker_run_add two k unf ..
    then show ?thesis ..
  qed
qed

lemma worker_steps_loop_body:
  assumes "WorkerLoopBody P s = Some (e, s')"
  shows "\<exists>k. worker_run k P (Waiting, s) =
           (case e of Continue \<Rightarrow> (LoopHead, s') | Break \<Rightarrow> (Exited, s'\<lparr>worker_running := False\<rparr>))"
proof -
  obtain result s1 where w: "WaitForMultipleObjectsEx P s = Some (result, s1)"
    using assms by (auto simp: WorkerLoopBody_def split: option.splits)
  show ?thesis
  proof (cases "result = WAIT_FAILED \<or> result = WAIT_OBJECT_0 + kMaximumClientCount P")
    case True
    then have "e = Continue" "s' = s1"
      using assms w by (auto simp: WorkerLoopBody_def)
    moreover have "worker_run 1 P (Waiting, s) = (LoopHead, s1)"
      using True w by auto
    ultimately show ?thesis
      by (intro exI [of _ 1]) simp
  next
    case False
    show ?thesis
    proof (cases "WAIT_OBJECT_0 \<le> result \<and> result \<le> WAIT_OBJECT_0 + (kMaximumClientCount P - 1)")
      case True
      let ?i = "result - WAIT_OBJECT_0"
      have one: "worker_run 1 P (Waiting, s) = (Pumping ?i 0, s1)"
        using False True w by auto
      obtain k where k: "worker_run k P (Pumping ?i 0, s1) =
          (AfterSweep (fst (sweep P ?i 0 s1)), snd (sweep P ?i 0 s1))"
        using worker_steps_sweep by blast
      have s': "s' = snd (sweep P ?i 0 s1)" and
           e: "e = (if \<not> worker_running (snd (sweep P ?i 0 s1)) then Break else Continue)"
        using assms w False True by (auto simp: WorkerLoopBody_def split: prod.splits if_splits)
      have "worker_run (1 + k + 1) P (Waiting, s) =
            worker_run 1 P (AfterSweep (fst (sweep P ?i 0 s1)), s')"
        unfolding worker_run_add one k s' ..
      also have "\<dots> = (case e of Continue \<Rightarrow> (LoopHead, s') | Break \<Rightarrow> (Exited, s'\<lparr>worker_running := False\<rparr>))"
        using e s' by simp
      finally show ?thesis ..
    next
      case out: False
      have one: "worker_run 1 P (Waiting, s) = (AfterSweep 0, s1)"
        using False out w by auto
      have s': "s' = s1" and e: "e = (if \<not> worker_running s1 then Break else Continue)"
        using assms w False out by (auto simp: WorkerLoopBody_def split: prod.splits if_splits)
      have "worker_run (1 + 1) P (Waiting, s) = worker_run 1 P (AfterSweep 0, s')"
        unfolding worker_run_add one s' ..
      also have "\<dots> = (case e of Continue \<Rightarrow> (LoopHead, s') | Break \<Rightarrow> (Exited, s'\<lparr>worker_running := False\<rparr>))"
        using e s' by simp
      finally show ?thesis ..
    qed
  qed
qed

subsection \<open>Facts about the worker after the shutdown signal\<close>

lemma pump_client_executed_length:
  "length (executed (pump_client index s)) \<le> Suc (length (executed s))"
  by (simp add: pump_client_def Let_def)

lemma WaitForMultipleObjectsEx_event_set:
  assumes "shutdown_event s"
  shows "\<exists>result s1. WaitForMultipleObjectsEx P s = Some (result, s1) \<and>
           result \<le> kMaximumClientCount P \<and>
           worker_running s1 = worker_running s \<and> shutdown_event s1 \<and>
           executed s1 = executed s"
proof (cases "find (\<lambda>i. 0 < sem_count (client_semaphores s ! i)) [0 ..< kMaximumClientCount P]")
  case None
  then show ?thesis
    using assms by (simp add: WaitForMultipleObjectsEx_def WAIT_OBJECT_0_def)
next
  case (Some i)
  then have "i < kMaximumClientCount P"
    by (auto simp: find_Some_iff)
  then show ?thesis
    using Some assms by (simp add: WaitForMultipleObjectsEx_def WAIT_OBJECT_0_def)
qed

lemma worker_step_after_shutdown:
  assumes "\<not> worker_running s" and "shutdown_event s" and "pc \<noteq> Exited"
      and "kMaximumClientCount P < 64"
  shows "\<exists>pc' s'. worker_step P (pc, s) = Some (pc', s') \<and>
           \<not> worker_running s' \<and> shutdown_event s' \<and>
           steps_to_exit P pc' < steps_to_exit P pc \<and>
           length (executed s') + calls_left P pc' \<le> length (executed s) + calls_left P pc"
proof (cases pc)
  case LoopHead
  then show ?thesis using assms by simp
next
  case Waiting
  obtain result s1 where
    w: "WaitForMultipleObjectsEx P s = Some (result, s1)" and
    r: "result \<le> kMaximumClientCount P" and
    s1: "worker_running s1 = worker_running s" "shutdown_event s1" "executed s1 = executed s"
    using WaitForMultipleObjectsEx_event_set [OF assms(2), of P] by blast
  show ?thesis
  proof (cases "result = kMaximumClientCount P")
    case True
    then show ?thesis
      using Waiting w s1 assms(1) by (simp add: WAIT_OBJECT_0_def)
  next
    case False
    then have lt: "result < kMaximumClientCount P"
      using r by simp
    then have "result \<noteq> WAIT_FAILED" "result \<le> kMaximumClientCount P - 1"
      using assms(4) by (simp_all add: WAIT_FAILED_def)
    then show ?thesis
      using Waiting w s1 assms(1) False lt by (simp add: WAIT_OBJECT_0_def) arith
  qed
next
  case (Pumping index pumped)
  then show ?thesis
    using assms pump_client_executed_length [of index s]
    by (simp add: pump_client_def Let_def)
next
  case (SweepCond index pumped)
  then show ?thesis
    using assms
    by (auto simp: WaitForSingleObject_def WAIT_OBJECT_0_def WAIT_TIMEOUT_def Let_def)
next
  case (AfterSweep pumped)
  then show ?thesis using assms by simp
next
  case Exited
  then show ?thesis using assms by simp
qed

lemma steps_to_exit_0: "steps_to_exit P pc = 0 \<longleftrightarrow> pc = Exited"
  by (cases pc) simp_all

lemma worker_run_after_shutdown:
  assumes "kMaximumClientCount P < 64"
  shows "\<not> worker_running s \<Longrightarrow> shutdown_event s \<Longrightarrow> steps_to_exit P pc \<le> k \<Longrightarrow>
         fst (worker_run k P (pc, s)) = Exited \<and>
         length (executed (snd (worker_run k P (pc, s)))) \<le> length (executed s) + calls_left P pc"
proof (induction k arbitrary: pc s)
  case 0
  then show ?case by (simp add: steps_to_exit_0)
next
  case (Suc k)
  show ?case
  proof (cases "pc = Exited")
    case True
    then show ?thesis by simp
  next
    case False
    obtain pc' s' where
      st: "worker_step P (pc, s) = Some (pc', s')" and
      fl: "\<not> worker_running s'" "shutdown_event s'" and
      dec: "steps_to_exit P pc' < steps_to_exit P pc" and
      ex: "length (executed s') + calls_left P pc' \<le> length (executed s) + calls_left P pc"
      using worker_step_after_shutdown [OF Suc.prems(1,2) False assms] by blast
    have "steps_to_exit P pc' \<le> k"
      using dec Suc.prems(3) by simp
    then have "fst (worker_run k P (pc', s')) = Exited \<and>
         length (executed (snd (worker_run k P (pc', s')))) \<le> length (executed s') + calls_left P pc'"
      using Suc.IH fl by blast
    then show ?thesis
      using st ex by simp
  qed
qed

lemma worker_run_numeral:
  "worker_run (numeral n) P c =
     (case worker_step P c of None \<Rightarrow> c | Some c1 \<Rightarrow> worker_run (pred_numeral n) P c1)"
  by (simp add: numeral_eq_Suc)



lemmas event_defs =
  example_shutdown_race_def RegisterClient_def AudioSystem_def example_platform_def
  driver_created_def block_at_def ReleaseSemaphore_def CreateSemaphore_def
  store_and_swap_def zero_client_def Let_def upt_8 replicate_8
  WaitForMultipleObjectsEx_def WaitForSingleObject_def pump_client_def Setup_def
  Shutdown_clear_running_def Shutdown_SetEvent_def Shutdown_Wait_def Shutdown_reset_def
  WAIT_OBJECT_0_def WAIT_FAILED_def WAIT_TIMEOUT_def

subsection \<open>Unregistration empties the semaphore\<close>

text \<open>
  C7. For every index in range and every count the slot's semaphore holds,
  \<^verbatim>\<open>UnregisterClient\<close> returns, and afterwards the count is zero, a further zero-timeout wait
  on it reports \<^verbatim>\<open>WAIT_TIMEOUT\<close>, and the draining loop made only zero-timeout waits: one
  per unit of the count, each of which took a unit, and the one that timed out and ended the
  loop.
\<close>

theorem unregister_drains_semaphore:
  assumes "index < kMaximumClientCount P"
      and "length (client_semaphores s) = kMaximumClientCount P"
  shows "\<exists>s'. UnregisterClient P index s = Inr s' \<and>
           sem_count (client_semaphores s' ! index) = 0 \<and>
           fst (WaitForSingleObject (client_semaphores s' ! index)) = WAIT_TIMEOUT \<and>
           drain (client_semaphores s ! index) 0 =
             (WAIT_TIMEOUT, client_semaphores s' ! index,
              sem_count (client_semaphores s ! index) + 1)"
  using assms by (simp add: UnregisterClient_in_range drain_result WaitForSingleObject_def)

theorem unregister_drains_semaphore_witness:
  "2 < kMaximumClientCount (example_platform 8) \<and>
   length (client_semaphores
     ((AudioSystem (example_platform 8))\<lparr>client_semaphores := replicate 8 (CreateSemaphore 5 64)\<rparr>))
     = kMaximumClientCount (example_platform 8) \<and>
   (\<exists>s'. UnregisterClient (example_platform 8) 2
           ((AudioSystem (example_platform 8))
              \<lparr>client_semaphores := replicate 8 (CreateSemaphore 5 64)\<rparr>) = Inr s' \<and>
         sem_count (client_semaphores s' ! 2) = 0 \<and>
         fst (WaitForSingleObject (client_semaphores s' ! 2)) = WAIT_TIMEOUT \<and>
         drain (CreateSemaphore 5 64) 0 = (WAIT_TIMEOUT, client_semaphores s' ! 2, 6))"
proof -
  let ?s = "(AudioSystem (example_platform 8))
              \<lparr>client_semaphores := replicate 8 (CreateSemaphore 5 64)\<rparr>"
  have h1: "2 < kMaximumClientCount (example_platform 8)"
    by (simp add: example_platform_def)
  have h2: "length (client_semaphores ?s) = kMaximumClientCount (example_platform 8)"
    by (simp add: example_platform_def)
  have h3: "client_semaphores ?s ! 2 = CreateSemaphore 5 64"
    by simp
  have h4: "sem_count (CreateSemaphore 5 64) + 1 = 6"
    by (simp add: CreateSemaphore_def)
  show ?thesis
    using unregister_drains_semaphore [OF h1 h2] h1 h2 unfolding h3 h4 by auto
qed

subsection \<open>Unregistering a slot that is already free\<close>

text \<open>
  C10. \<^verbatim>\<open>UnregisterClient\<close> asserts only that the index is in range. Given an index in range
  whose slot has no driver, it returns normally having pushed the index on the queue of
  unused indices, where it already was: the queue holds it twice, and the length of the
  queue plus the number of occupied slots is one more than the capacity.
\<close>

theorem unregister_free_slot_duplicates:
  assumes "table_ok P s"
      and "index < kMaximumClientCount P"
      and "driver (clients s ! index) = 0"
  shows "\<exists>s'. UnregisterClient P index s = Inr s' \<and>
           unused_clients s' = unused_clients s @ [index] \<and>
           index \<in> set (unused_clients s) \<and>
           \<not> distinct (unused_clients s') \<and>
           length (unused_clients s') + occupied s' = kMaximumClientCount P + 1"
proof -
  let ?s' = "s\<lparr>destroyed := destroyed s @ [driver (clients s ! index)],
           clients := (clients s)[index := zero_client],
           unused_clients := unused_clients s @ [index],
           client_semaphores :=
             (client_semaphores s)[index := (client_semaphores s ! index)\<lparr>sem_count := 0\<rparr>]\<rparr>"
  have mem: "index \<in> set (unused_clients s)"
    using assms by (simp add: table_ok_def)
  have "occupied ?s' = occupied (s\<lparr>clients := (clients s)[index := zero_client]\<rparr>)"
    by (simp add: occupied_def)
  then have occ: "occupied ?s' = occupied s"
    using assms(3) by (simp add: occupied_update_free)
  have "length (unused_clients ?s') + occupied ?s' = kMaximumClientCount P + 1"
    using table_ok_sum [OF assms(1)] occ by simp
  then show ?thesis
    using mem assms(2) by (simp add: UnregisterClient_in_range)
qed

theorem unregister_free_slot_duplicates_witness:
  "table_ok (example_platform 8) (AudioSystem (example_platform 8)) \<and>
   3 < kMaximumClientCount (example_platform 8) \<and>
   driver (clients (AudioSystem (example_platform 8)) ! 3) = 0 \<and>
   (\<exists>s'. UnregisterClient (example_platform 8) 3 (AudioSystem (example_platform 8)) = Inr s' \<and>
         unused_clients s' = [0, 1, 2, 3, 4, 5, 6, 7, 3] \<and>
         length (unused_clients s') + occupied s' = 9)"
proof -
  have h1: "table_ok (example_platform 8) (AudioSystem (example_platform 8))"
    by (rule AudioSystem_table_ok)
  have h2: "3 < kMaximumClientCount (example_platform 8)"
    by (simp add: example_platform_def)
  have h3: "driver (clients (AudioSystem (example_platform 8)) ! 3) = 0"
    by (simp add: AudioSystem_def example_platform_def zero_client_def)
  have u: "unused_clients (AudioSystem (example_platform 8)) = [0, 1, 2, 3, 4, 5, 6, 7]"
    by (simp add: AudioSystem_def example_platform_def upt_8)
  have k: "kMaximumClientCount (example_platform 8) = 8"
    by (simp add: example_platform_def)
  show ?thesis
    using unregister_free_slot_duplicates [OF h1 h2 h3] h1 h2 h3 unfolding u k by auto
qed

subsection \<open>The slot table under sequences of calls\<close>

text \<open>
  C5. Take any sequence of registrations and unregistrations on a new system in which every
  registration finds a free slot and every unregistration names an occupied one. Whenever
  the sequence has run, the number of occupied slots is at most the capacity, the length of
  the queue of unused indices plus the number of occupied slots is the capacity, and the
  queue is first in, first out: the indices 0, 1, ... followed by the unregistered indices
  in the order of their unregistration are the indices handed out by the registrations, in
  the order of the registrations, followed by what is still queued. Every prefix of such a
  sequence is such a sequence, so this holds after every operation.
\<close>

theorem slot_table_invariant_and_fifo:
  assumes "preconditions_hold P (AudioSystem P) calls"
      and "run_calls P (AudioSystem P) calls = Inr (regs, s')"
  shows "occupied s' \<le> kMaximumClientCount P \<and>
         length (unused_clients s') + occupied s' = kMaximumClientCount P \<and>
         [0 ..< kMaximumClientCount P] @ unregistered calls = regs @ unused_clients s'"
proof -
  have "table_ok P s'"
    using run_calls_table_ok [OF AudioSystem_table_ok assms] .
  then have "length (unused_clients s') + occupied s' = kMaximumClientCount P"
    by (rule table_ok_sum)
  moreover have "unused_clients (AudioSystem P) = [0 ..< kMaximumClientCount P]"
    by (simp add: AudioSystem_def)
  ultimately show ?thesis
    using run_calls_fifo [OF assms(2)] by simp
qed

theorem slot_table_invariant_and_fifo_witness:
  "\<exists>s'. preconditions_hold (example_platform 2) (AudioSystem (example_platform 2)) example_calls \<and>
         run_calls (example_platform 2) (AudioSystem (example_platform 2)) example_calls
           = Inr ([0, 1, 1, 0], s') \<and>
         occupied s' \<le> 2 \<and>
         length (unused_clients s') + occupied s' = 2 \<and>
         [0, 1] @ unregistered example_calls = [0, 1, 1, 0] @ unused_clients s'"
proof -
  have pre: "preconditions_hold (example_platform 2) (AudioSystem (example_platform 2)) example_calls"
    by (simp add: example_calls_def example_defs upt_rec numeral_2_eq_2)
  have "\<exists>s'. run_calls (example_platform 2) (AudioSystem (example_platform 2)) example_calls
           = Inr ([0, 1, 1, 0], s')"
    by (simp add: example_calls_def example_defs upt_rec numeral_2_eq_2)
  then obtain s' where
    run: "run_calls (example_platform 2) (AudioSystem (example_platform 2)) example_calls
           = Inr ([0, 1, 1, 0], s')" ..
  have k: "kMaximumClientCount (example_platform 2) = 2" "[0 ..< 2] = [0, 1]"
    by (simp_all add: example_platform_def upt_rec numeral_2_eq_2)
  show ?thesis
    using slot_table_invariant_and_fifo [OF pre run] pre run unfolding k by blast
qed

subsection \<open>A registration whose driver cannot be created\<close>

text \<open>
  C2. On a new system of eight slots every semaphore has count 0. A registration whose
  factory fails returns the factory's status and leaves index 0 at the head of the queue,
  but the semaphore of slot 0 keeps the 64 units released before the factory was called.
  The next registration takes slot 0 again and stops at the assertion on the result of
  \<^verbatim>\<open>ReleaseSemaphore\<close>.
\<close>

theorem failed_registration_keeps_semaphore_signalled:
  "map sem_count (client_semaphores (AudioSystem (example_platform 8))) = [0, 0, 0, 0, 0, 0, 0, 0] \<and>
   map_sum id fst
     (RegisterClient (example_platform 8) driver_failed (block_at 0x1000) 0x100 0x12345678
        (AudioSystem (example_platform 8))) = Inr 0xC0000001 \<and>
   map_sum id (unused_clients \<circ> snd \<circ> snd)
     (RegisterClient (example_platform 8) driver_failed (block_at 0x1000) 0x100 0x12345678
        (AudioSystem (example_platform 8))) = Inr [0, 1, 2, 3, 4, 5, 6, 7] \<and>
   map_sum id (map sem_count \<circ> client_semaphores \<circ> snd \<circ> snd)
     (RegisterClient (example_platform 8) driver_failed (block_at 0x1000) 0x100 0x12345678
        (AudioSystem (example_platform 8))) = Inr [64, 0, 0, 0, 0, 0, 0, 0] \<and>
   run_calls (example_platform 8) (AudioSystem (example_platform 8))
     [Register driver_failed (block_at 0x1000) 0x100 0x12345678,
      Register driver_created (block_at 0x1000) 0x100 0x12345678] = Inl Assert_ReleaseSemaphore_ret"
  by (simp add: example_defs)

subsection \<open>The argument block after unregistration\<close>

text \<open>
  C4. A client is registered on a new system and its block is allocated at 0x1000. After
  \<^verbatim>\<open>UnregisterClient\<close> of its slot the driver has been destroyed and every record is zero,
  so no record holds the address any more, and the block is still allocated.
\<close>

theorem unregister_keeps_arg_block_allocated:
  "map_sum id (heap_blocks \<circ> snd)
     (run_calls (example_platform 8) (AudioSystem (example_platform 8))
        [Register driver_created (block_at 0x1000) 0x100 0x12345678]) = Inr [0x1000] \<and>
   map_sum id (heap_blocks \<circ> snd)
     (run_calls (example_platform 8) (AudioSystem (example_platform 8))
        [Register driver_created (block_at 0x1000) 0x100 0x12345678, Unregister 0]) = Inr [0x1000] \<and>
   map_sum id (destroyed \<circ> snd)
     (run_calls (example_platform 8) (AudioSystem (example_platform 8))
        [Register driver_created (block_at 0x1000) 0x100 0x12345678, Unregister 0]) = Inr [1] \<and>
   map_sum id (clients \<circ> snd)
     (run_calls (example_platform 8) (AudioSystem (example_platform 8))
        [Register driver_created (block_at 0x1000) 0x100 0x12345678, Unregister 0])
     = Inr (replicate 8 zero_client)"
  by (simp add: example_defs)

subsection \<open>Operations on a slot that is not valid\<close>

text \<open>
  C9, as stated, fails: slot 5 of a new system has no driver, and \<^verbatim>\<open>UnregisterClient\<close> of
  it returns normally with the queue of unused indices changed.
\<close>

theorem unoccupied_unregister_counterexample:
  "driver (clients (AudioSystem (example_platform 8)) ! 5) = 0 \<and>
   map_sum id unused_clients
     (UnregisterClient (example_platform 8) 5 (AudioSystem (example_platform 8)))
     = Inr [0, 1, 2, 3, 4, 5, 6, 7, 5] \<and>
   unused_clients (AudioSystem (example_platform 8)) = [0, 1, 2, 3, 4, 5, 6, 7]"
  by (simp add: example_defs)

text \<open>
  C9, amended. \<^verbatim>\<open>SubmitFrame\<close> with an index out of range, \<^verbatim>\<open>SubmitFrame\<close> with an index
  in range whose slot has no driver, and \<^verbatim>\<open>UnregisterClient\<close> with an index out of range
  each fail an assertion, and the state at that point is the state the call was entered
  with: nothing has been written.
\<close>

theorem invalid_slot_asserts:
  "(\<not> index < kMaximumClientCount P \<longrightarrow>
      SubmitFrame_effect P index samples_ptr s = (Some Assert_index_in_range, s) \<and>
      UnregisterClient_effect P index s = (Some Assert_index_in_range, s) \<and>
      SubmitFrame P index samples_ptr s = Inl Assert_index_in_range \<and>
      UnregisterClient P index s = Inl Assert_index_in_range) \<and>
   (index < kMaximumClientCount P \<and> driver (clients s ! index) = 0 \<longrightarrow>
      SubmitFrame_effect P index samples_ptr s = (Some Assert_client_driver, s) \<and>
      SubmitFrame P index samples_ptr s = Inl Assert_client_driver)"
  by (simp add: SubmitFrame_def UnregisterClient_def SubmitFrame_effect_def
        UnregisterClient_effect_def)

theorem invalid_slot_asserts_witness:
  "\<exists>s. run_calls (example_platform 8) (AudioSystem (example_platform 8))
          [Register driver_created (block_at 0x1000) 0x100 7] = Inr ([0], s) \<and>
       \<not> 8 < kMaximumClientCount (example_platform 8) \<and>
       SubmitFrame_effect (example_platform 8) 8 0x2000 s = (Some Assert_index_in_range, s) \<and>
       UnregisterClient_effect (example_platform 8) 8 s = (Some Assert_index_in_range, s) \<and>
       SubmitFrame (example_platform 8) 8 0x2000 s = Inl Assert_index_in_range \<and>
       UnregisterClient (example_platform 8) 8 s = Inl Assert_index_in_range \<and>
       3 < kMaximumClientCount (example_platform 8) \<and>
       driver (clients s ! 3) = 0 \<and>
       SubmitFrame_effect (example_platform 8) 3 0x2000 s = (Some Assert_client_driver, s) \<and>
       SubmitFrame (example_platform 8) 3 0x2000 s = Inl Assert_client_driver \<and>
       driver (clients s ! 0) = 1 \<and>
       fst (SubmitFrame_effect (example_platform 8) 0 0x2000 s) = None \<and>
       submitted (snd (SubmitFrame_effect (example_platform 8) 0 0x2000 s)) = [(1, 0x2000)] \<and>
       submitted s = []"
proof -
  have "\<exists>s. run_calls (example_platform 8) (AudioSystem (example_platform 8))
          [Register driver_created (block_at 0x1000) 0x100 7] = Inr ([0], s) \<and>
       driver (clients s ! 3) = 0 \<and> driver (clients s ! 0) = 1 \<and> submitted s = []"
    by (simp add: example_defs)
  then obtain s where
    both: "run_calls (example_platform 8) (AudioSystem (example_platform 8))
          [Register driver_created (block_at 0x1000) 0x100 7] = Inr ([0], s) \<and>
       driver (clients s ! 3) = 0 \<and> driver (clients s ! 0) = 1 \<and> submitted s = []" ..
  have h1: "\<not> 8 < kMaximumClientCount (example_platform 8)"
   and h2: "3 < kMaximumClientCount (example_platform 8)"
   and h3: "0 < kMaximumClientCount (example_platform 8)"
    by (simp_all add: example_platform_def)
  have ok: "fst (SubmitFrame_effect (example_platform 8) 0 0x2000 s) = None \<and>
       submitted (snd (SubmitFrame_effect (example_platform 8) 0 0x2000 s)) = [(1, 0x2000)]"
    using both h3 by (simp add: SubmitFrame_effect_def)
  show ?thesis
    using invalid_slot_asserts [of 8 "example_platform 8" "0x2000" s]
          invalid_slot_asserts [of 3 "example_platform 8" "0x2000" s]
          h1 h2 both ok
    by (intro exI [of _ s]) simp
qed

subsection \<open>Which slots one wakeup serves\<close>




subsection \<open>The argument a callback is run with\<close>

text \<open>
  C3, as stated, fails. On a system of four slots a client registers with the callback
  0x100 and the argument 0x12345678, and its block is allocated at 0x1000. The worker runs
  the callback with the single argument 0x1000, the address of the block, not with
  0x12345678.
\<close>

theorem callback_argument_counterexample:
  "map_sum id (map_option (executed \<circ> snd) \<circ> WorkerLoopBody (example_platform 4) \<circ> snd)
     (run_calls (example_platform 4) (snd (snd (Setup (example_platform 4) (None, AudioSystem (example_platform 4)))))
        [Register driver_created (block_at 0x1000) 0x100 0x12345678])
     = Inr (Some [(0x100, [0x1000])]) \<and>
   map_sum id (map callback_arg \<circ> clients \<circ> snd)
     (run_calls (example_platform 4) (snd (snd (Setup (example_platform 4) (None, AudioSystem (example_platform 4)))))
        [Register driver_created (block_at 0x1000) 0x100 0x12345678])
     = Inr [0x12345678, 0, 0, 0]"
  by (simp add: example_defs worker_defs upt_4 replicate_4)

text \<open>
  C3, amended. After a registration that returns an index, a pass of the worker's loop that
  wakes on that slot runs the registered callback with one argument, the guest address of
  the block allocated by the registration; the record keeps the argument as it was passed,
  and the block holds its byte-swapped copy.
\<close>

theorem registered_callback_gets_arg_block_address:
  assumes "kMaximumClientCount P < 64"
      and "table_ok P s"
      and "RegisterClient P cd ha cb arg s = Inr (r, Some i, s')"
      and "cb \<noteq> 0"
      and "\<forall>j<i. sem_count (client_semaphores s ! j) = 0"
  shows "(\<exists>e s'' rest. WorkerLoopBody P s' = Some (e, s'') \<and>
            executed s'' = executed s' @ (cb, [ucast (ha 4)]) # rest) \<and>
         ha 4 \<in> set (heap_blocks s') \<and>
         wrapped_callback_arg (clients s' ! i) = ha 4 \<and>
         callback_arg (clients s' ! i) = arg \<and>
         guest_memory s' (ha 4) = byte_swap arg"
proof -
  note R = RegisterClient_success [OF assms(3)]
  have "i \<in> set (unused_clients s)"
    using R by simp
  then have "i < length (clients s)"
    using assms(2) by (simp add: table_ok_def)
  then have "ha 4 \<in> set (heap_blocks s') \<and>
         wrapped_callback_arg (clients s' ! i) = ha 4 \<and>
         callback_arg (clients s' ! i) = arg \<and>
         guest_memory s' (ha 4) = byte_swap arg"
    using R by simp
  then show ?thesis
    using registered_client_is_pumped [OF assms] by blast
qed

theorem registered_callback_gets_arg_block_address_witness:
  "\<exists>s s'. run_calls (example_platform 4) (AudioSystem (example_platform 4)) example_calls_reuse
            = Inr ([0], s) \<and>
     kMaximumClientCount (example_platform 4) < 64 \<and>
     table_ok (example_platform 4) s \<and>
     RegisterClient (example_platform 4) driver_created (block_at 0x1004) 0x200 0x12345678 s
       = Inr (0, Some 1, s') \<and>
     (0x200 :: 32 word) \<noteq> 0 \<and>
     (\<forall>j<1. sem_count (client_semaphores s ! j) = 0) \<and>
     (\<exists>e s'' rest. WorkerLoopBody (example_platform 4) s' = Some (e, s'') \<and>
        executed s'' = executed s' @ (0x200, [0x1004]) # rest) \<and>
     0x1004 \<in> set (heap_blocks s') \<and>
     wrapped_callback_arg (clients s' ! 1) = 0x1004 \<and>
     callback_arg (clients s' ! 1) = 0x12345678 \<and>
     guest_memory s' 0x1004 = 0x78563412"
proof -
  obtain s s' where
    run: "run_calls (example_platform 4) (AudioSystem (example_platform 4)) example_calls_reuse
            = Inr ([0], s)" and
    h2: "table_ok (example_platform 4) s" and
    z: "sem_count (client_semaphores s ! 0) = 0" and
    h3: "RegisterClient (example_platform 4) driver_created (block_at 0x1004) 0x200 0x12345678 s
       = Inr (0, Some 1, s')"
    using example_calls_reuse_state by blast
  have h1: "kMaximumClientCount (example_platform 4) < 64"
    by (simp add: example_platform_def)
  have h4: "(0x200 :: 32 word) \<noteq> 0"
    by simp
  have h5: "\<forall>j<1. sem_count (client_semaphores s ! j) = 0"
    using z by simp
  have q: "block_at (0x1004 :: 32 word) 4 = 0x1004" "(ucast (0x1004 :: 32 word) :: 64 word) = 0x1004"
          "byte_swap 0x12345678 = 0x78563412"
    by (simp_all add: block_at_def byte_swap_def)
  show ?thesis
    using registered_callback_gets_arg_block_address [OF h1 h2 h3 h4 h5] run h1 h2 h3 h4 h5
    unfolding q
    by (intro exI [of _ s] exI [of _ s']) simp
qed

subsection \<open>The semaphore after registration\<close>




subsection \<open>Shutdown and the worker\<close>

text \<open>
  C8, as stated, fails. In the interleaving above the worker has finished the callback of
  slot 0 and stands at the condition of the do-while for slot 1 when \<^verbatim>\<open>Shutdown\<close> clears
  the flag and sets the event; no callback is running. Its next two steps take a unit from
  the semaphore of slot 1 and run the callback of slot 1. \<^verbatim>\<open>Shutdown\<close> cannot pass its
  wait at that point; after two more steps the worker has exited and \<^verbatim>\<open>Shutdown\<close> returns.
\<close>

theorem callback_begins_after_shutdown_signal_counterexample:
  "map_sum id fst
     (run_events (example_platform 8) example_shutdown_race (None, AudioSystem (example_platform 8)))
     = Inr (Some (SweepCond 1 1)) \<and>
   map_sum id (worker_running \<circ> snd)
     (run_events (example_platform 8) example_shutdown_race (None, AudioSystem (example_platform 8)))
     = Inr False \<and>
   map_sum id (shutdown_event \<circ> snd)
     (run_events (example_platform 8) example_shutdown_race (None, AudioSystem (example_platform 8)))
     = Inr True \<and>
   map_sum id (executed \<circ> snd)
     (run_events (example_platform 8) example_shutdown_race (None, AudioSystem (example_platform 8)))
     = Inr [(0x100, [0x1000])] \<and>
   map_sum id (executed \<circ> snd)
     (run_events (example_platform 8) (example_shutdown_race @ [Worker, Worker])
        (None, AudioSystem (example_platform 8)))
     = Inr [(0x100, [0x1000]), (0x200, [0x1004])] \<and>
   run_events (example_platform 8) (example_shutdown_race @ [Worker, Worker, Shutdown_3])
        (None, AudioSystem (example_platform 8))
     = Inl Not_enabled \<and>
   map_sum id fst
     (run_events (example_platform 8)
        (example_shutdown_race @ [Worker, Worker, Worker, Worker, Shutdown_3, Shutdown_4])
        (None, AudioSystem (example_platform 8)))
     = Inr None"
  by (simp add: event_defs)

text \<open>
  C8, amended. Once \<^verbatim>\<open>Shutdown\<close> has cleared the running flag and set the event, the worker,
  wherever it stands, finishes at most the sweep it is in or the one wait it has entered,
  which may still start callbacks for the slots that follow, no more than the number of
  slots in all; it then finds the flag clear and exits, within \<open>2 * N + 2\<close> of its steps
  and without waiting again. The wait in \<^verbatim>\<open>Shutdown\<close> returns only when the thread has
  exited.
\<close>

theorem worker_exits_after_shutdown_signal:
  assumes "0 < kMaximumClientCount P" and "kMaximumClientCount P < 64"
  shows "fst (worker_run (2 * kMaximumClientCount P + 2) P
                (pc, Shutdown_SetEvent (Shutdown_clear_running s))) = Exited \<and>
         length (executed (snd (worker_run (2 * kMaximumClientCount P + 2) P
                (pc, Shutdown_SetEvent (Shutdown_clear_running s)))))
           \<le> length (executed s) + kMaximumClientCount P \<and>
         (Shutdown_Wait (Some pc, s) \<noteq> None \<longleftrightarrow> pc = Exited)"
proof -
  let ?s = "Shutdown_SetEvent (Shutdown_clear_running s)"
  have fl: "\<not> worker_running ?s" "shutdown_event ?s" "executed ?s = executed s"
    by (simp_all add: Shutdown_SetEvent_def Shutdown_clear_running_def)
  have st: "steps_to_exit P pc \<le> 2 * kMaximumClientCount P + 2"
    using assms(1) by (cases pc) simp_all
  have cl: "calls_left P pc \<le> kMaximumClientCount P"
    using assms(1) by (cases pc) simp_all
  have "fst (worker_run (2 * kMaximumClientCount P + 2) P (pc, ?s)) = Exited \<and>
        length (executed (snd (worker_run (2 * kMaximumClientCount P + 2) P (pc, ?s))))
          \<le> length (executed ?s) + calls_left P pc"
    using worker_run_after_shutdown [OF assms(2) fl(1,2) st] .
  then show ?thesis
    using cl fl(3) by (simp add: Shutdown_Wait_def)
qed

theorem worker_exits_after_shutdown_signal_witness:
  "\<exists>s. run_events (example_platform 8) example_mid_sweep (None, AudioSystem (example_platform 8))
          = Inr (Some (SweepCond 1 1), s) \<and>
       0 < kMaximumClientCount (example_platform 8) \<and>
       kMaximumClientCount (example_platform 8) < 64 \<and>
       executed s = [(0x100, [0x1000])] \<and>
       fst (worker_run 18 (example_platform 8)
              (SweepCond 1 1, Shutdown_SetEvent (Shutdown_clear_running s))) = Exited \<and>
       executed (snd (worker_run 18 (example_platform 8)
              (SweepCond 1 1, Shutdown_SetEvent (Shutdown_clear_running s))))
         = [(0x100, [0x1000]), (0x200, [0x1004])] \<and>
       length (executed (snd (worker_run 18 (example_platform 8)
              (SweepCond 1 1, Shutdown_SetEvent (Shutdown_clear_running s)))))
         \<le> length (executed s) + 8 \<and>
       Shutdown_Wait (Some (SweepCond 1 1), s) = None"
proof -
  have "\<exists>s. run_events (example_platform 8) example_mid_sweep (None, AudioSystem (example_platform 8))
          = Inr (Some (SweepCond 1 1), s) \<and>
       executed s = [(0x100, [0x1000])] \<and>
       executed (snd (worker_run 18 (example_platform 8)
              (SweepCond 1 1, Shutdown_SetEvent (Shutdown_clear_running s))))
         = [(0x100, [0x1000]), (0x200, [0x1004])]"
    by (simp add: example_mid_sweep_def event_defs worker_run_numeral)
  then obtain s where
    all: "run_events (example_platform 8) example_mid_sweep (None, AudioSystem (example_platform 8))
          = Inr (Some (SweepCond 1 1), s) \<and>
       executed s = [(0x100, [0x1000])] \<and>
       executed (snd (worker_run 18 (example_platform 8)
              (SweepCond 1 1, Shutdown_SetEvent (Shutdown_clear_running s))))
         = [(0x100, [0x1000]), (0x200, [0x1004])]" ..
  have h1: "0 < kMaximumClientCount (example_platform 8)"
   and h2: "kMaximumClientCount (example_platform 8) < 64"
    by (simp_all add: example_platform_def)
  have k: "2 * kMaximumClientCount (example_platform 8) + 2 = 18"
          "kMaximumClientCount (example_platform 8) = 8"
    by (simp_all add: example_platform_def)
  show ?thesis
    using worker_exits_after_shutdown_signal [OF h1 h2, of "SweepCond 1 1" s] h1 h2 all
    unfolding k
    by (intro exI [of _ s]) (simp add: Shutdown_Wait_def)
qed

end
